theory Spec2Isabelle
  imports Main "HOL-Library.Word" "HOL-Library.Sublist"
begin

unbundle bit_operations_syntax

section \<open>Packrat hash-state reconciliation (SessionPackrat.cpp)\<close>

text \<open>
  The module keeps its state in file-level and function-level statics and in the
  project-persistent client state, and it talks to collaborators: the file system, the R
  session (RPC-style calls) and the client event queue. The embedding threads one record
  of the mutable state through every function, and reads the collaborators from a second
  record, the environment, which is fixed during one callback and may differ between two
  callbacks.
\<close>

subsection \<open>Enumerations and action names\<close>

datatype PackratActionType =
    PACKRAT_ACTION_NONE
  | PACKRAT_ACTION_SNAPSHOT
  | PACKRAT_ACTION_RESTORE
  | PACKRAT_ACTION_CLEAN
  | PACKRAT_ACTION_UNKNOWN

datatype PackratHashType = HASH_TYPE_LOCKFILE | HASH_TYPE_LIBRARY

datatype PackratHashState = HASH_STATE_RESOLVED | HASH_STATE_OBSERVED | HASH_STATE_COMPUTED

datatype PendingSnapshotAction = SET_PENDING_SNAPSHOT | COMPLETE_SNAPSHOT

definition kPackratLockfile :: string where
  "kPackratLockfile = ''packrat.lock''"

definition kPackratActionRestore :: string where
  "kPackratActionRestore = ''restore''"

definition kPackratActionClean :: string where
  "kPackratActionClean = ''clean''"

definition kPackratActionSnapshot :: string where
  "kPackratActionSnapshot = ''snapshot''"

definition packratAction :: "string \<Rightarrow> PackratActionType" where
  "packratAction str =
     (if str = kPackratActionSnapshot then PACKRAT_ACTION_SNAPSHOT
      else if str = kPackratActionRestore then PACKRAT_ACTION_RESTORE
      else if str = kPackratActionClean then PACKRAT_ACTION_CLEAN
      else PACKRAT_ACTION_UNKNOWN)"

fun packratActionName :: "PackratActionType \<Rightarrow> string" where
  "packratActionName PACKRAT_ACTION_SNAPSHOT = kPackratActionSnapshot"
| "packratActionName PACKRAT_ACTION_RESTORE = kPackratActionRestore"
| "packratActionName PACKRAT_ACTION_CLEAN = kPackratActionClean"
| "packratActionName _ = []"

subsection \<open>Paths\<close>

text \<open>
  Modelled from the spec: \<open>core::FilePath\<close> is not part of the source unit. A path is
  the list of its components from the root; \<open>filename\<close> is the last component (empty for
  the empty path), \<open>parent\<close> drops it, \<open>complete\<close> appends the components of a relative
  path, and a path lies within a scope when the scope's components are a prefix of its
  own (a path lies within itself).
\<close>

type_synonym FilePath = "string list"

definition filename :: "FilePath \<Rightarrow> string" where
  "filename p = (if p = [] then [] else last p)"

definition parent :: "FilePath \<Rightarrow> FilePath" where
  "parent p = butlast p"

definition complete :: "FilePath \<Rightarrow> FilePath \<Rightarrow> FilePath" where
  "complete dir rel = dir @ rel"

definition isWithin :: "FilePath \<Rightarrow> FilePath \<Rightarrow> bool" where
  "isWithin p scopePath = prefix scopePath p"

definition kPackratLibPath :: FilePath where
  "kPackratLibPath = [''packrat'', ''lib'']"

definition kPackratLockfilePath :: FilePath where
  "kPackratLockfilePath = [''packrat'', kPackratLockfile]"

subsection \<open>Environment and state\<close>

text \<open>What reading the lockfile gives: it does not exist, it cannot be read, or its bytes.\<close>

datatype file_read = Absent | ReadError | Content string

text \<open>
  The reply of the R function \<open>.rs.pendingActions\<close>: the call fails, or it returns a
  list of opaque action descriptors together with whether that list converts to JSON.
\<close>

datatype rpc_reply = RpcError | RpcValue "string list" bool

text \<open>
  The collaborators, as one callback sees them. \<open>crc32HexHash\<close> (core/Hash.hpp) is not
  part of the source unit and is a parameter here. \<open>libraryChildren\<close> lists what
  \<open>childrenRecursive\<close> visits under the library root, in its order of traversal, each
  path with what reading it gives.
\<close>

record env =
  projectDirectory :: FilePath
  crc32HexHash :: "string \<Rightarrow> string"
  lockFile :: file_read
  libraryChildren :: "(FilePath \<times> file_read) list"
  isDirectory :: "FilePath \<Rightarrow> bool"
  realPathsEqual :: "FilePath \<Rightarrow> FilePath \<Rightarrow> bool"
  pendingActionsR :: "string \<Rightarrow> FilePath \<Rightarrow> rpc_reply"
  getAutoSnapshotCmd :: "FilePath \<Rightarrow> string option"

text \<open>What the module sends out: a client event, or a pending-actions query to R.\<close>

datatype effect = InstalledPackagesChanged | PendingActionsQuery string

text \<open>An \<open>AutoSnapshot\<close> process object: its fields and the running flag of its base class.\<close>

record AutoSnapshot =
  targetHash :: string
  command :: string
  running :: bool

text \<open>
  The mutable state: the static \<open>s_runningPackratAction\<close>, the function statics
  \<open>pendingSnapshots\<close> (a C++ \<open>int\<close>), \<open>pAutoSnapshot\<close> (a shared pointer, here an index
  into the store \<open>procs\<close> of all process objects created so far) and the counter behind
  \<open>DROP_RECURSIVE_CALLS\<close> in \<open>checkHashes\<close>, the project-persistent client state under
  the scope \<open>packrat\<close>, and the log of what has been sent out. The persistent entries of
  this scope are the strings that the module itself has put there; an entry that is not
  there reads as the empty hash.
\<close>

record state =
  s_runningPackratAction :: PackratActionType
  pendingSnapshots :: "32 word"
  pAutoSnapshot :: "nat option"
  procs :: "AutoSnapshot list"
  recursionCount :: int
  projectPersistent :: "string \<rightharpoonup> string"
  effects :: "effect list"

definition initialState :: state where
  "initialState =
     \<lparr> s_runningPackratAction = PACKRAT_ACTION_NONE,
       pendingSnapshots = 0,
       pAutoSnapshot = None,
       procs = [],
       recursionCount = 0,
       projectPersistent = Map.empty,
       effects = [] \<rparr>"

subsection \<open>Library and lockfile hashing and comparison\<close>

definition keyOfHashType :: "PackratHashType \<Rightarrow> PackratHashState \<Rightarrow> string" where
  "keyOfHashType hashType hashState =
     ''packrat''
     @ (if hashType = HASH_TYPE_LOCKFILE then ''Lockfile'' else ''Library'')
     @ (if hashState = HASH_STATE_OBSERVED then ''Observed'' else ''Resolved'')"

text \<open>
  \<open>addDescContent\<close>: the content of a file named DESCRIPTION is appended; a read
  error is dropped and appends nothing.
\<close>

definition addDescContent :: "FilePath \<times> file_read \<Rightarrow> string \<Rightarrow> string" where
  "addDescContent child descContent =
     (if filename (fst child) = ''DESCRIPTION''
      then descContent @ (case snd child of Content c \<Rightarrow> c | _ \<Rightarrow> [])
      else descContent)"

definition computeLibraryHash :: "env \<Rightarrow> string" where
  "computeLibraryHash e =
     (let descFileContent = foldl (\<lambda>acc child. addDescContent child acc) [] (libraryChildren e)
      in if descFileContent = [] then [] else crc32HexHash e descFileContent)"

definition computeLockfileHash :: "env \<Rightarrow> string" where
  "computeLockfileHash e =
     (case lockFile e of
        Absent \<Rightarrow> []
      | ReadError \<Rightarrow> []
      | Content lockFileContent \<Rightarrow> crc32HexHash e lockFileContent)"

definition getHash :: "env \<Rightarrow> state \<Rightarrow> PackratHashType \<Rightarrow> PackratHashState \<Rightarrow> string" where
  "getHash e s hashType hashState =
     (if hashState = HASH_STATE_COMPUTED
      then (if hashType = HASH_TYPE_LOCKFILE then computeLockfileHash e
            else computeLibraryHash e)
      else (case projectPersistent s (keyOfHashType hashType hashState) of
              Some h \<Rightarrow> h
            | None \<Rightarrow> []))"

definition updateHash ::
  "env \<Rightarrow> state \<Rightarrow> PackratHashType \<Rightarrow> PackratHashState \<Rightarrow> string \<times> state" where
  "updateHash e s hashType hashState =
     (let newHash = getHash e s hashType HASH_STATE_COMPUTED;
          oldHash = getHash e s hashType hashState
      in if newHash \<noteq> oldHash
         then (newHash,
               s\<lparr>projectPersistent :=
                   (projectPersistent s)(keyOfHashType hashType hashState \<mapsto> newHash)\<rparr>)
         else (newHash, s))"

definition isHashUnresolved :: "env \<Rightarrow> state \<Rightarrow> PackratHashType \<Rightarrow> bool" where
  "isHashUnresolved e s hashType =
     (let observedHash = getHash e s hashType HASH_STATE_OBSERVED;
          resolvedHash = getHash e s hashType HASH_STATE_RESOLVED
      in if observedHash = [] \<or> resolvedHash = [] then False
         else observedHash \<noteq> resolvedHash)"

definition emitPackagesChanged :: "state \<Rightarrow> state" where
  "emitPackagesChanged s = s\<lparr>effects := effects s @ [InstalledPackagesChanged]\<rparr>"

subsection \<open>Pending actions and resolution\<close>

text \<open>
  \<open>getPendingActions\<close> asks R for the actions that executing \<open>action\<close> would perform.
  \<open>wantActions\<close> says whether the caller passed a non-null \<open>pActions\<close>; the second
  component of the result is what is written there (nothing when it is left untouched).
\<close>

definition getPendingActions ::
  "env \<Rightarrow> state \<Rightarrow> PackratActionType \<Rightarrow> bool \<Rightarrow> bool \<times> string list option \<times> state" where
  "getPendingActions e s action wantActions =
     (let s1 = s\<lparr>effects := effects s @ [PendingActionsQuery (packratActionName action)]\<rparr>
      in case pendingActionsR e (packratActionName action) (projectDirectory e) of
           RpcError \<Rightarrow> (False, None, s1)
         | RpcValue actions convertible \<Rightarrow>
             if length actions = 0 then (False, None, s1)
             else if wantActions
                  then (if convertible then (True, Some actions, s1) else (False, None, s1))
                  else (True, None, s1))"

definition resolveStateAfterAction ::
  "env \<Rightarrow> state \<Rightarrow> PackratActionType \<Rightarrow> PackratHashType \<Rightarrow> state" where
  "resolveStateAfterAction e s action hashType =
     (let s1 = (if getHash e s hashType HASH_STATE_OBSERVED \<noteq>
                   getHash e s hashType HASH_STATE_COMPUTED
                then emitPackagesChanged s else s);
          (pending, _, s2) = getPendingActions e s1 action False
      in if \<not> pending
         then (let (_, s3) = updateHash e s2 HASH_TYPE_LIBRARY HASH_STATE_RESOLVED;
                   (_, s4) = updateHash e s3 HASH_TYPE_LOCKFILE HASH_STATE_RESOLVED
               in s4)
         else s2)"

subsection \<open>Auto-snapshot\<close>

text \<open>
  Modelled from the spec: the base class \<open>async_r::AsyncRProcess\<close> is not part of the
  source unit. \<open>start\<close> launches the subprocess, which is running from then on;
  when the subprocess exits, the object stops being running and its \<open>onCompleted\<close> hook
  is called with the exit status (\<open>onProcessCompleted\<close> below).
\<close>

definition isRunning :: "state \<Rightarrow> nat \<Rightarrow> bool" where
  "isRunning s i = (i < length (procs s) \<and> running (procs s ! i))"

text \<open>
  \<open>AutoSnapshot::create\<close>: a failing \<open>.rs.getAutoSnapshotCmd\<close> is logged and leaves the
  command empty; the new object is started all the same. The result is the pointer to it.
\<close>

definition create :: "env \<Rightarrow> state \<Rightarrow> FilePath \<Rightarrow> string \<Rightarrow> nat \<times> state" where
  "create e s projectDir targetHash' =
     (let snapshotCmd = (case getAutoSnapshotCmd e projectDir of Some c \<Rightarrow> c | None \<Rightarrow> []);
          pSnapshot = \<lparr> targetHash = targetHash', command = snapshotCmd, running = True \<rparr>
      in (length (procs s), s\<lparr>procs := procs s @ [pSnapshot]\<rparr>))"

text \<open>
  The test \<open>pAutoSnapshot && pAutoSnapshot->isRunning()\<close>: the process object that
  \<open>pAutoSnapshot\<close> points to, when there is one and it is running.
\<close>

definition runningSnapshot :: "state \<Rightarrow> AutoSnapshot option" where
  "runningSnapshot s =
     (case pAutoSnapshot s of
        None \<Rightarrow> None
      | Some i \<Rightarrow> if isRunning s i then Some (procs s ! i) else None)"

function pendingSnapshot :: "env \<Rightarrow> state \<Rightarrow> PendingSnapshotAction \<Rightarrow> state"
  and performAutoSnapshot :: "env \<Rightarrow> state \<Rightarrow> string \<Rightarrow> state" where
  "pendingSnapshot e s action =
     (if action = SET_PENDING_SNAPSHOT
      then s\<lparr>pendingSnapshots := pendingSnapshots s + 1\<rparr>
      else if action = COMPLETE_SNAPSHOT
      then (if 0 <s pendingSnapshots s
            then performAutoSnapshot e (s\<lparr>pendingSnapshots := 0\<rparr>) (computeLibraryHash e)
            else resolveStateAfterAction e s PACKRAT_ACTION_SNAPSHOT HASH_TYPE_LIBRARY)
      else s)"
| "performAutoSnapshot e s newHash =
     (case runningSnapshot s of
        Some snapshot \<Rightarrow>
          if targetHash snapshot = newHash then s
          else pendingSnapshot e s SET_PENDING_SNAPSHOT
      | None \<Rightarrow>
          (let (p, s1) = create e s (projectDirectory e) newHash
           in s1\<lparr>pAutoSnapshot := Some p\<rparr>))"
  by pat_completeness auto
termination
  by (relation "measure (\<lambda>x. case x of
          Inl (e, s, action) \<Rightarrow> (if action = SET_PENDING_SNAPSHOT then 0 else 2)
        | Inr (e, s, newHash) \<Rightarrow> 1)") auto

declare pendingSnapshot.simps [simp del] performAutoSnapshot.simps [simp del]

definition onCompleted :: "env \<Rightarrow> state \<Rightarrow> int \<Rightarrow> state" where
  "onCompleted e s exitStatus =
     (if exitStatus \<noteq> 0 then s else pendingSnapshot e s COMPLETE_SNAPSHOT)"

text \<open>
  The exit of the subprocess behind process object \<open>i\<close>. Only a running process can
  exit; for any other \<open>i\<close> there is no such event and the state is left as it is.
\<close>

definition onProcessCompleted :: "env \<Rightarrow> state \<Rightarrow> nat \<Rightarrow> int \<Rightarrow> state" where
  "onProcessCompleted e s i exitStatus =
     (if isRunning s i
      then onCompleted e (s\<lparr>procs := (procs s)[i := (procs s ! i)\<lparr>running := False\<rparr>]\<rparr>) exitStatus
      else s)"

subsection \<open>Library and lockfile monitoring\<close>

text \<open>
  Modelled from the spec: the macro \<open>DROP_RECURSIVE_CALLS\<close> (core/RecursionGuard.hpp),
  with which \<open>checkHashes\<close> starts, is not part of the source unit. It is a flag that
  is set on entry, cleared on every exit path and checked without blocking: a guard
  object increments a counter static to the function, the call returns at once when the
  counter then exceeds 1, and the counter is decremented again when the guard goes out of
  scope.
\<close>

definition checkHashes ::
  "env \<Rightarrow> state \<Rightarrow> PackratHashType \<Rightarrow> PackratHashState \<Rightarrow>
   (env \<Rightarrow> state \<Rightarrow> string \<Rightarrow> string \<Rightarrow> state) \<Rightarrow> state" where
  "checkHashes e s hashType hashState onMismatch =
     (let s1 = s\<lparr>recursionCount := recursionCount s + 1\<rparr>;
          s2 = (if recursionCount s1 > 1 then s1
                else (let oldHash = getHash e s1 hashType hashState;
                          newHash = getHash e s1 hashType HASH_STATE_COMPUTED
                      in if oldHash = newHash then s1
                         else onMismatch e s1 oldHash newHash))
      in s2\<lparr>recursionCount := recursionCount s2 - 1\<rparr>)"

definition onLockfileUpdate :: "env \<Rightarrow> state \<Rightarrow> string \<Rightarrow> string \<Rightarrow> state" where
  "onLockfileUpdate e s oldHash newHash = emitPackagesChanged s"

definition onLibraryUpdate :: "env \<Rightarrow> state \<Rightarrow> string \<Rightarrow> string \<Rightarrow> state" where
  "onLibraryUpdate e s oldHash newHash =
     (if \<not> isHashUnresolved e s HASH_TYPE_LOCKFILE
      then performAutoSnapshot e s newHash
      else emitPackagesChanged s)"

definition onFileChanged :: "env \<Rightarrow> state \<Rightarrow> FilePath \<Rightarrow> state" where
  "onFileChanged e s sourceFilePath =
     (if s_runningPackratAction s \<noteq> PACKRAT_ACTION_NONE then s
      else (let libraryPath = complete (projectDirectory e) kPackratLibPath
            in if filename sourceFilePath = kPackratLockfile
               then checkHashes e s HASH_TYPE_LOCKFILE HASH_STATE_OBSERVED onLockfileUpdate
               else if isWithin sourceFilePath libraryPath \<and>
                       (isDirectory e sourceFilePath \<or>
                        filename sourceFilePath = ''DESCRIPTION'')
               then (if filename sourceFilePath = ''manipulate'' \<or>
                        filename sourceFilePath = ''rstudio'' \<or>
                        filename (parent sourceFilePath) = ''manipulate'' \<or>
                        filename (parent sourceFilePath) = ''rstudio''
                     then s
                     else checkHashes e s HASH_TYPE_LIBRARY HASH_STATE_OBSERVED onLibraryUpdate)
               else s))"

definition onFilesChanged :: "env \<Rightarrow> state \<Rightarrow> FilePath list \<Rightarrow> state" where
  "onFilesChanged e s changes = foldl (onFileChanged e) s changes"

subsection \<open>Action notifications\<close>

definition onPackratAction :: "env \<Rightarrow> state \<Rightarrow> FilePath \<Rightarrow> string \<Rightarrow> bool \<Rightarrow> state" where
  "onPackratAction e s project action running' =
     (if \<not> realPathsEqual e (projectDirectory e) project then s
      else if running' then s\<lparr>s_runningPackratAction := packratAction action\<rparr>
      else (let completedAction = s_runningPackratAction s;
                s1 = s\<lparr>s_runningPackratAction := PACKRAT_ACTION_NONE\<rparr>
            in case completedAction of
                 PACKRAT_ACTION_RESTORE \<Rightarrow>
                   resolveStateAfterAction e s1 PACKRAT_ACTION_RESTORE HASH_TYPE_LOCKFILE
               | PACKRAT_ACTION_SNAPSHOT \<Rightarrow>
                   resolveStateAfterAction e s1 PACKRAT_ACTION_SNAPSHOT HASH_TYPE_LIBRARY
               | _ \<Rightarrow> s1))"

subsection \<open>Status annotation\<close>

text \<open>The three entries that \<open>annotatePendingActions\<close> writes into the JSON object.\<close>

record pending_json =
  restore_actions :: "string list option"
  snapshot_actions :: "string list option"
  clean_actions :: "string list option"

definition annotatePendingActions :: "env \<Rightarrow> state \<Rightarrow> pending_json \<times> state" where
  "annotatePendingActions e s =
     (let (libraryHash, s1) = updateHash e s HASH_TYPE_LIBRARY HASH_STATE_OBSERVED;
          (lockfileHash, s2) = updateHash e s1 HASH_TYPE_LOCKFILE HASH_STATE_OBSERVED;
          libraryDirty = (libraryHash \<noteq> getHash e s2 HASH_TYPE_LIBRARY HASH_STATE_RESOLVED);
          lockfileDirty = (lockfileHash \<noteq> getHash e s2 HASH_TYPE_LOCKFILE HASH_STATE_RESOLVED);
          (snapshotActions, s3) =
             (if libraryDirty
              then (let (_, a, t) = getPendingActions e s2 PACKRAT_ACTION_SNAPSHOT True in (a, t))
              else (None, s2));
          (restoreActions, s4) =
             (if lockfileDirty
              then (let (_, a, t) = getPendingActions e s3 PACKRAT_ACTION_RESTORE True in (a, t))
              else (None, s3));
          (_, cleanActions, s5) = getPendingActions e s4 PACKRAT_ACTION_CLEAN True
      in (\<lparr> restore_actions = restoreActions,
            snapshot_actions = snapshotActions,
            clean_actions = cleanActions \<rparr>, s5))"

subsection \<open>Callbacks as events\<close>

text \<open>
  Everything runs on one thread: the module is entered through its callbacks, one after
  the other. An event is one such entry: a snapshot request, the exit of the subprocess
  behind a process object, a saved file, a batch of file changes from the monitor, an
  action notification from R, or a status request that annotates the pending actions. A
  run handles a list of events, each in the environment of its moment.
\<close>

datatype event =
    Request string
  | ProcessExit nat int
  | FileSaved FilePath
  | FilesChanged "FilePath list"
  | PackratAction FilePath string bool
  | AnnotatePendingActions

fun step :: "env \<Rightarrow> state \<Rightarrow> event \<Rightarrow> state" where
  "step e s (Request h) = performAutoSnapshot e s h"
| "step e s (ProcessExit i exitStatus) = onProcessCompleted e s i exitStatus"
| "step e s (FileSaved p) = onFileChanged e s p"
| "step e s (FilesChanged changes) = onFilesChanged e s changes"
| "step e s (PackratAction project action running') = onPackratAction e s project action running'"
| "step e s AnnotatePendingActions = snd (annotatePendingActions e s)"

fun run :: "state \<Rightarrow> (env \<times> event) list \<Rightarrow> state" where
  "run s [] = s"
| "run s ((e, ev) # evs) = run (step e s ev) evs"

text \<open>The number of snapshot subprocesses that are running.\<close>

definition activeSnapshots :: "state \<Rightarrow> nat" where
  "activeSnapshots s = length (filter running (procs s))"

text \<open>
  Every running process object is the one that \<open>pAutoSnapshot\<close> points to. This holds
  in every state a run reaches, and it leaves room for one running subprocess at most.
\<close>

definition pointsToRunning :: "state \<Rightarrow> bool" where
  "pointsToRunning s =
     (\<forall>i < length (procs s). running (procs s ! i) \<longrightarrow> pAutoSnapshot s = Some i)"

subsection \<open>A concrete checksum and concrete environments\<close>

text \<open>
  Modelled from the spec: \<open>hash::crc32HexHash\<close> (core/Hash.hpp) is not part of the
  source unit. The spec asks for a fast non-cryptographic checksum such as CRC32, rendered
  as fixed-width hex: this is the reflected CRC-32 (polynomial \<open>0xEDB88320\<close>) as eight
  upper-case hex digits. The theorems below hold for every checksum function; this one
  instantiates them at concrete inputs.
\<close>

definition crc32_bit :: "32 word \<Rightarrow> 32 word" where
  "crc32_bit c = (if bit c 0 then drop_bit 1 c XOR 0xEDB88320 else drop_bit 1 c)"

definition crc32_byte :: "32 word \<Rightarrow> char \<Rightarrow> 32 word" where
  "crc32_byte c b =
     crc32_bit (crc32_bit (crc32_bit (crc32_bit
       (crc32_bit (crc32_bit (crc32_bit (crc32_bit (c XOR of_char b))))))))"

definition crc32 :: "string \<Rightarrow> 32 word" where
  "crc32 content = NOT (foldl crc32_byte (- 1) content)"

definition hexDigit :: "32 word \<Rightarrow> char" where
  "hexDigit d = ''0123456789ABCDEF'' ! unat (d AND 15)"

definition crc32_hex :: "string \<Rightarrow> string" where
  "crc32_hex content =
     map (\<lambda>k. hexDigit (drop_bit (4 * k) (crc32 content))) [7, 6, 5, 4, 3, 2, 1, 0]"

text \<open>
  A project at \<open>/home/user/proj\<close> whose lockfile reads \<open>X\<close>, with one installed package,
  where R reports no pending action. Directories are the paths not named DESCRIPTION or
  packrat.lock.
\<close>

definition projDir :: FilePath where
  "projDir = [''home'', ''user'', ''proj'']"

definition libDir :: FilePath where
  "libDir = complete projDir kPackratLibPath"

definition envX :: env where
  "envX =
     \<lparr> projectDirectory = projDir,
       crc32HexHash = crc32_hex,
       lockFile = Content ''X'',
       libraryChildren =
         [(libDir @ [''pkg''], ReadError),
          (libDir @ [''pkg'', ''DESCRIPTION''], Content ''Package: pkg'')],
       isDirectory = (\<lambda>p. filename p \<noteq> ''DESCRIPTION'' \<and> filename p \<noteq> kPackratLockfile),
       realPathsEqual = (\<lambda>a b. a = b),
       pendingActionsR = (\<lambda>action project. RpcValue [] True),
       getAutoSnapshotCmd = (\<lambda>project. Some ''packrat::snapshot()'') \<rparr>"

text \<open>The same project when the pending-actions call to R fails.\<close>

definition envRpcError :: env where
  "envRpcError = envX\<lparr>pendingActionsR := (\<lambda>action project. RpcError)\<rparr>"

text \<open>The same project when R reports one pending action for every action type.\<close>

definition envPending :: env where
  "envPending = envX\<lparr>pendingActionsR := (\<lambda>action project. RpcValue [''upgrade pkg''] True)\<rparr>"

text \<open>
  A state in which a restore is outstanding: the observed lockfile hash is stored and
  differs from the stored resolved one.
\<close>

definition stateLockfileUnresolved :: state where
  "stateLockfileUnresolved =
     initialState\<lparr>projectPersistent :=
       [keyOfHashType HASH_TYPE_LOCKFILE HASH_STATE_OBSERVED \<mapsto> ''B7B2364B'',
        keyOfHashType HASH_TYPE_LOCKFILE HASH_STATE_RESOLVED \<mapsto> ''00000000'']\<rparr>"

text \<open>
  A snapshot towards \<open>11111111\<close> is running and a request for another hash has been
  queued since.
\<close>

definition stateRunningWithPending :: state where
  "stateRunningWithPending =
     run initialState [(envX, Request ''11111111''), (envX, Request ''22222222'')]"

section \<open>Properties\<close>

subsection \<open>Concrete values\<close>

lemma crc32_hex_X: "crc32_hex ''X'' = ''B7B2364B''"
  by (simp add: crc32_hex_def crc32_def crc32_byte_def crc32_bit_def hexDigit_def)

lemma crc32_hex_pkg: "crc32_hex ''Package: pkg'' = ''72F618E8''"
  by (simp add: crc32_hex_def crc32_def crc32_byte_def crc32_bit_def hexDigit_def)

lemma computeLockfileHash_envX: "computeLockfileHash envX = ''B7B2364B''"
  by (simp add: computeLockfileHash_def envX_def crc32_hex_X)

lemma computeLibraryHash_envX: "computeLibraryHash envX = ''72F618E8''"
  by (simp add: computeLibraryHash_def envX_def addDescContent_def filename_def crc32_hex_pkg)

subsection \<open>The hash store\<close>

lemma keyOfHashType_eq_iff:
  "hs \<noteq> HASH_STATE_COMPUTED \<Longrightarrow> hs' \<noteq> HASH_STATE_COMPUTED \<Longrightarrow>
   (keyOfHashType t hs = keyOfHashType t' hs') = (t = t' \<and> hs = hs')"
  by (cases t; cases t'; cases hs; cases hs'; simp add: keyOfHashType_def)

lemma getPendingActions_state:
  "snd (snd (getPendingActions e s action w)) =
     s\<lparr>effects := effects s @ [PendingActionsQuery (packratActionName action)]\<rparr>"
  by (simp add: getPendingActions_def Let_def split: rpc_reply.splits)

lemma getPendingActions_result:
  "fst (getPendingActions e s action w) = fst (getPendingActions e s' action w)"
  by (simp add: getPendingActions_def Let_def split: rpc_reply.splits)

lemma getHash_computed [simp]:
  "getHash e s HASH_TYPE_LOCKFILE HASH_STATE_COMPUTED = computeLockfileHash e"
  "getHash e s HASH_TYPE_LIBRARY HASH_STATE_COMPUTED = computeLibraryHash e"
  by (simp_all add: getHash_def)

lemma getHash_frame:
  "projectPersistent s' = projectPersistent s \<Longrightarrow> getHash e s' t hs = getHash e s t hs"
  by (simp add: getHash_def)

lemma updateHash_stored:
  "hs \<noteq> HASH_STATE_COMPUTED \<Longrightarrow>
   getHash e (snd (updateHash e s t hs)) t hs = getHash e s t HASH_STATE_COMPUTED"
  by (auto simp: updateHash_def Let_def getHash_def)

lemma updateHash_other:
  "hs \<noteq> HASH_STATE_COMPUTED \<Longrightarrow> hs' \<noteq> HASH_STATE_COMPUTED \<Longrightarrow> (t, hs) \<noteq> (t', hs') \<Longrightarrow>
   getHash e (snd (updateHash e s t hs)) t' hs' = getHash e s t' hs'"
  by (auto simp: updateHash_def Let_def getHash_def keyOfHashType_eq_iff)

lemma resolveStateAfterAction_unfold:
  "resolveStateAfterAction e s action hashType =
     (let s1 = (if getHash e s hashType HASH_STATE_OBSERVED \<noteq>
                   getHash e s hashType HASH_STATE_COMPUTED
                then emitPackagesChanged s else s);
          s2 = s1\<lparr>effects := effects s1 @ [PendingActionsQuery (packratActionName action)]\<rparr>
      in if fst (getPendingActions e s action False) then s2
         else snd (updateHash e (snd (updateHash e s2 HASH_TYPE_LIBRARY HASH_STATE_RESOLVED))
                     HASH_TYPE_LOCKFILE HASH_STATE_RESOLVED))"
proof -
  define s1 where "s1 = (if getHash e s hashType HASH_STATE_OBSERVED \<noteq>
                   getHash e s hashType HASH_STATE_COMPUTED
                then emitPackagesChanged s else s)"
  have r: "fst (getPendingActions e s1 action False) = fst (getPendingActions e s action False)"
    by (rule getPendingActions_result)
  show ?thesis
    unfolding resolveStateAfterAction_def Let_def case_prod_beta s1_def [symmetric]
    by (simp add: getPendingActions_state r)
qed

subsection \<open>Joint resolution\<close>

lemma resolveStateAfterAction_pending:
  assumes "fst (getPendingActions e s action False)"
  shows "projectPersistent (resolveStateAfterAction e s action hashType) = projectPersistent s"
  using assms
  by (simp add: resolveStateAfterAction_unfold Let_def emitPackagesChanged_def)

lemma resolveStateAfterAction_none_pending:
  assumes "\<not> fst (getPendingActions e s action False)"
  shows "getHash e (resolveStateAfterAction e s action hashType)
           HASH_TYPE_LIBRARY HASH_STATE_RESOLVED = computeLibraryHash e"
    and "getHash e (resolveStateAfterAction e s action hashType)
           HASH_TYPE_LOCKFILE HASH_STATE_RESOLVED = computeLockfileHash e"
proof -
  define s1 where "s1 = (if getHash e s hashType HASH_STATE_OBSERVED \<noteq>
                            getHash e s hashType HASH_STATE_COMPUTED
                         then emitPackagesChanged s else s)"
  define s2 where
    "s2 = s1\<lparr>effects := effects s1 @ [PendingActionsQuery (packratActionName action)]\<rparr>"
  define s3 where "s3 = snd (updateHash e s2 HASH_TYPE_LIBRARY HASH_STATE_RESOLVED)"
  have eq: "resolveStateAfterAction e s action hashType =
              snd (updateHash e s3 HASH_TYPE_LOCKFILE HASH_STATE_RESOLVED)"
    using assms by (simp add: resolveStateAfterAction_unfold Let_def s1_def s2_def s3_def)
  have lib: "getHash e s3 HASH_TYPE_LIBRARY HASH_STATE_RESOLVED = computeLibraryHash e"
    unfolding s3_def by (simp add: updateHash_stored)
  show "getHash e (resolveStateAfterAction e s action hashType)
          HASH_TYPE_LIBRARY HASH_STATE_RESOLVED = computeLibraryHash e"
    unfolding eq by (simp add: updateHash_other lib)
  show "getHash e (resolveStateAfterAction e s action hashType)
          HASH_TYPE_LOCKFILE HASH_STATE_RESOLVED = computeLockfileHash e"
    unfolding eq by (simp add: updateHash_stored)
qed

text \<open>
  C3. When \<open>resolveStateAfterAction\<close> runs for a completed action (SNAPSHOT and RESTORE
  among them) and the pending-actions query for that action reports none remaining, the
  stored RESOLVED hash of the LIBRARY and that of the LOCKFILE both equal the current
  computed hash afterwards; when the query reports pending actions, the persistent store
  is left as it was. RESOLVED is never updated for one of the two entities only.
\<close>

theorem resolveStateAfterAction_joint:
  "if fst (getPendingActions e s action False)
   then projectPersistent (resolveStateAfterAction e s action hashType) = projectPersistent s
   else getHash e (resolveStateAfterAction e s action hashType) HASH_TYPE_LIBRARY HASH_STATE_RESOLVED
          = computeLibraryHash e \<and>
        getHash e (resolveStateAfterAction e s action hashType) HASH_TYPE_LOCKFILE HASH_STATE_RESOLVED
          = computeLockfileHash e"
  by (simp add: resolveStateAfterAction_pending resolveStateAfterAction_none_pending)

theorem resolveStateAfterAction_joint_witness:
  "\<not> fst (getPendingActions envX initialState PACKRAT_ACTION_SNAPSHOT False) \<and>
   getHash envX (resolveStateAfterAction envX initialState PACKRAT_ACTION_SNAPSHOT HASH_TYPE_LIBRARY)
     HASH_TYPE_LIBRARY HASH_STATE_RESOLVED = ''72F618E8'' \<and>
   getHash envX (resolveStateAfterAction envX initialState PACKRAT_ACTION_SNAPSHOT HASH_TYPE_LIBRARY)
     HASH_TYPE_LOCKFILE HASH_STATE_RESOLVED = ''B7B2364B'' \<and>
   fst (getPendingActions envPending initialState PACKRAT_ACTION_RESTORE False) \<and>
   projectPersistent
     (resolveStateAfterAction envPending initialState PACKRAT_ACTION_RESTORE HASH_TYPE_LOCKFILE)
     = Map.empty"
proof -
  have none: "\<not> fst (getPendingActions envX initialState PACKRAT_ACTION_SNAPSHOT False)"
    by (simp add: getPendingActions_def envX_def)
  have some: "fst (getPendingActions envPending initialState PACKRAT_ACTION_RESTORE False)"
    by (simp add: getPendingActions_def envPending_def envX_def)
  from none
    resolveStateAfterAction_joint
      [of envX initialState PACKRAT_ACTION_SNAPSHOT HASH_TYPE_LIBRARY]
  have both:
    "getHash envX (resolveStateAfterAction envX initialState PACKRAT_ACTION_SNAPSHOT HASH_TYPE_LIBRARY)
       HASH_TYPE_LIBRARY HASH_STATE_RESOLVED = computeLibraryHash envX \<and>
     getHash envX (resolveStateAfterAction envX initialState PACKRAT_ACTION_SNAPSHOT HASH_TYPE_LIBRARY)
       HASH_TYPE_LOCKFILE HASH_STATE_RESOLVED = computeLockfileHash envX"
    by simp
  from some
    resolveStateAfterAction_joint
      [of envPending initialState PACKRAT_ACTION_RESTORE HASH_TYPE_LOCKFILE]
  have neither:
    "projectPersistent
       (resolveStateAfterAction envPending initialState PACKRAT_ACTION_RESTORE HASH_TYPE_LOCKFILE)
       = projectPersistent initialState"
    by simp
  show ?thesis
    using none some both neither
    by (simp add: computeLibraryHash_envX computeLockfileHash_envX initialState_def)
qed

subsection \<open>What each function leaves alone\<close>

lemma updateHash_frame:
  "s_runningPackratAction (snd (updateHash e s t hs)) = s_runningPackratAction s"
  "pendingSnapshots (snd (updateHash e s t hs)) = pendingSnapshots s"
  "pAutoSnapshot (snd (updateHash e s t hs)) = pAutoSnapshot s"
  "procs (snd (updateHash e s t hs)) = procs s"
  "recursionCount (snd (updateHash e s t hs)) = recursionCount s"
  "effects (snd (updateHash e s t hs)) = effects s"
  by (simp_all add: updateHash_def Let_def)

lemma resolveStateAfterAction_frame:
  "s_runningPackratAction (resolveStateAfterAction e s a t) = s_runningPackratAction s"
  "pendingSnapshots (resolveStateAfterAction e s a t) = pendingSnapshots s"
  "pAutoSnapshot (resolveStateAfterAction e s a t) = pAutoSnapshot s"
  "procs (resolveStateAfterAction e s a t) = procs s"
  "recursionCount (resolveStateAfterAction e s a t) = recursionCount s"
  by (simp_all add: resolveStateAfterAction_unfold Let_def updateHash_frame emitPackagesChanged_def)

lemma performAutoSnapshot_unfold:
  "performAutoSnapshot e s newHash =
     (if (case pAutoSnapshot s of None \<Rightarrow> False | Some i \<Rightarrow> isRunning s i)
      then (if targetHash (procs s ! the (pAutoSnapshot s)) = newHash then s
            else s\<lparr>pendingSnapshots := pendingSnapshots s + 1\<rparr>)
      else s\<lparr>procs := procs s @
                 [\<lparr> targetHash = newHash,
                    command = (case getAutoSnapshotCmd e (projectDirectory e) of
                                 Some c \<Rightarrow> c | None \<Rightarrow> []),
                    running = True \<rparr>],
             pAutoSnapshot := Some (length (procs s))\<rparr>)"
  by (subst performAutoSnapshot.simps, subst pendingSnapshot.simps)
     (simp add: create_def Let_def runningSnapshot_def split: option.splits)

lemma annotatePendingActions_store:
  "projectPersistent (snd (annotatePendingActions e s)) =
     projectPersistent (snd (updateHash e (snd (updateHash e s HASH_TYPE_LIBRARY HASH_STATE_OBSERVED))
                          HASH_TYPE_LOCKFILE HASH_STATE_OBSERVED))"
  by (simp add: annotatePendingActions_def Let_def case_prod_beta getPendingActions_state)

lemma annotatePendingActions_frame:
  "s_runningPackratAction (snd (annotatePendingActions e s)) = s_runningPackratAction s"
  "pendingSnapshots (snd (annotatePendingActions e s)) = pendingSnapshots s"
  "pAutoSnapshot (snd (annotatePendingActions e s)) = pAutoSnapshot s"
  "procs (snd (annotatePendingActions e s)) = procs s"
  "recursionCount (snd (annotatePendingActions e s)) = recursionCount s"
  by (simp_all add: annotatePendingActions_def Let_def case_prod_beta getPendingActions_state
        updateHash_frame)

lemma annotatePendingActions_observed:
  "getHash e (snd (annotatePendingActions e s)) t HASH_STATE_OBSERVED =
     getHash e s t HASH_STATE_COMPUTED"
proof -
  let ?s1 = "snd (updateHash e s HASH_TYPE_LIBRARY HASH_STATE_OBSERVED)"
  let ?s2 = "snd (updateHash e ?s1 HASH_TYPE_LOCKFILE HASH_STATE_OBSERVED)"
  have "getHash e (snd (annotatePendingActions e s)) t HASH_STATE_OBSERVED =
          getHash e ?s2 t HASH_STATE_OBSERVED"
    by (rule getHash_frame) (rule annotatePendingActions_store)
  also have "\<dots> = getHash e s t HASH_STATE_COMPUTED"
  proof (cases t)
    case HASH_TYPE_LOCKFILE
    then show ?thesis by (simp add: updateHash_stored)
  next
    case HASH_TYPE_LIBRARY
    then show ?thesis by (simp add: updateHash_other updateHash_stored)
  qed
  finally show ?thesis .
qed

lemma performAutoSnapshot_store:
  "projectPersistent (performAutoSnapshot e s h) = projectPersistent s"
  by (simp add: performAutoSnapshot_unfold)

lemma performAutoSnapshot_recursionCount:
  "performAutoSnapshot e (s\<lparr>recursionCount := k\<rparr>) h =
     (performAutoSnapshot e s h)\<lparr>recursionCount := k\<rparr>"
  by (simp add: performAutoSnapshot_unfold isRunning_def split: option.splits)

lemma performAutoSnapshot_recursionCount_id:
  "(performAutoSnapshot e s h)\<lparr>recursionCount := recursionCount s\<rparr> =
     performAutoSnapshot e s h"
  by (simp add: performAutoSnapshot_unfold)

lemma isHashUnresolved_recursionCount:
  "isHashUnresolved e (s\<lparr>recursionCount := k\<rparr>) t = isHashUnresolved e s t"
  by (simp add: isHashUnresolved_def getHash_def)

lemma checkHashes_dropped:
  "0 < recursionCount s \<Longrightarrow> checkHashes e s t hs f = s"
  by (simp add: checkHashes_def Let_def)

lemma checkHashes_lockfile:
  "recursionCount s \<le> 0 \<Longrightarrow>
   checkHashes e s HASH_TYPE_LOCKFILE HASH_STATE_OBSERVED onLockfileUpdate =
     (if getHash e s HASH_TYPE_LOCKFILE HASH_STATE_OBSERVED = computeLockfileHash e then s
      else emitPackagesChanged s)"
  by (simp add: checkHashes_def Let_def onLockfileUpdate_def emitPackagesChanged_def getHash_def)

lemma checkHashes_library:
  "recursionCount s \<le> 0 \<Longrightarrow>
   checkHashes e s HASH_TYPE_LIBRARY HASH_STATE_OBSERVED onLibraryUpdate =
     (if getHash e s HASH_TYPE_LIBRARY HASH_STATE_OBSERVED = computeLibraryHash e then s
      else if isHashUnresolved e s HASH_TYPE_LOCKFILE then emitPackagesChanged s
      else performAutoSnapshot e s (computeLibraryHash e))"
  by (simp add: checkHashes_def Let_def onLibraryUpdate_def emitPackagesChanged_def
        isHashUnresolved_recursionCount performAutoSnapshot_recursionCount
        performAutoSnapshot_recursionCount_id getHash_def)

lemma checkHashes_lockfile_store:
  "projectPersistent (checkHashes e s HASH_TYPE_LOCKFILE HASH_STATE_OBSERVED onLockfileUpdate)
     = projectPersistent s"
  by (cases "0 < recursionCount s")
     (simp_all add: checkHashes_dropped checkHashes_lockfile emitPackagesChanged_def)

lemma checkHashes_library_store:
  "projectPersistent (checkHashes e s HASH_TYPE_LIBRARY HASH_STATE_OBSERVED onLibraryUpdate)
     = projectPersistent s"
  by (cases "0 < recursionCount s")
     (simp_all add: checkHashes_dropped checkHashes_library emitPackagesChanged_def
        performAutoSnapshot_store)

lemma onFileChanged_store:
  "projectPersistent (onFileChanged e s p) = projectPersistent s"
  by (simp add: onFileChanged_def Let_def checkHashes_lockfile_store checkHashes_library_store)

lemma onFilesChanged_store:
  "projectPersistent (onFilesChanged e s ps) = projectPersistent s"
  unfolding onFilesChanged_def
  by (induction ps arbitrary: s) (simp_all add: onFileChanged_store)

subsection \<open>Action notifications\<close>

text \<open>
  C10. When a stop notification (\<open>running\<close> false) for the current project arrives,
  what \<open>onPackratAction\<close> does depends on the recorded running action only, not on the
  action name that the notification carries; the recorded action is cleared in every case;
  a recorded restore is resolved against the lockfile, a recorded snapshot against the
  library, and for a recorded none, clean or unknown action nothing else happens (no
  resolution, no client event).
\<close>

theorem onPackratAction_stop:
  assumes "realPathsEqual e (projectDirectory e) project"
  shows "onPackratAction e s project action False = onPackratAction e s project action' False \<and>
         s_runningPackratAction (onPackratAction e s project action False) = PACKRAT_ACTION_NONE \<and>
         onPackratAction e s project action False =
           (case s_runningPackratAction s of
              PACKRAT_ACTION_RESTORE \<Rightarrow>
                resolveStateAfterAction e (s\<lparr>s_runningPackratAction := PACKRAT_ACTION_NONE\<rparr>)
                  PACKRAT_ACTION_RESTORE HASH_TYPE_LOCKFILE
            | PACKRAT_ACTION_SNAPSHOT \<Rightarrow>
                resolveStateAfterAction e (s\<lparr>s_runningPackratAction := PACKRAT_ACTION_NONE\<rparr>)
                  PACKRAT_ACTION_SNAPSHOT HASH_TYPE_LIBRARY
            | _ \<Rightarrow> s\<lparr>s_runningPackratAction := PACKRAT_ACTION_NONE\<rparr>)"
  using assms
  by (simp add: onPackratAction_def Let_def resolveStateAfterAction_frame
        split: PackratActionType.splits)

theorem onPackratAction_stop_witness:
  "realPathsEqual envX (projectDirectory envX) projDir \<and>
   onPackratAction envX (initialState\<lparr>s_runningPackratAction := PACKRAT_ACTION_CLEAN\<rparr>)
     projDir ''snapshot'' False =
   onPackratAction envX (initialState\<lparr>s_runningPackratAction := PACKRAT_ACTION_CLEAN\<rparr>)
     projDir ''restore'' False \<and>
   onPackratAction envX (initialState\<lparr>s_runningPackratAction := PACKRAT_ACTION_CLEAN\<rparr>)
     projDir ''snapshot'' False = initialState"
proof -
  have match: "realPathsEqual envX (projectDirectory envX) projDir"
    by (simp add: envX_def)
  note stop = onPackratAction_stop [OF match,
      of "initialState\<lparr>s_runningPackratAction := PACKRAT_ACTION_CLEAN\<rparr>"
         "''snapshot''" "''restore''"]
  have same: "onPackratAction envX (initialState\<lparr>s_runningPackratAction := PACKRAT_ACTION_CLEAN\<rparr>)
      projDir ''snapshot'' False =
    onPackratAction envX (initialState\<lparr>s_runningPackratAction := PACKRAT_ACTION_CLEAN\<rparr>)
      projDir ''restore'' False"
    by (rule stop [THEN conjunct1])
  have cleared: "onPackratAction envX
      (initialState\<lparr>s_runningPackratAction := PACKRAT_ACTION_CLEAN\<rparr>)
      projDir ''snapshot'' False = initialState"
    using stop [THEN conjunct2, THEN conjunct2] by (simp add: initialState_def)
  from match same cleared show ?thesis by blast
qed

subsection \<open>File changes while an action runs\<close>

lemma onFilesChanged_suppressed:
  "s_runningPackratAction s \<noteq> PACKRAT_ACTION_NONE \<Longrightarrow> onFilesChanged e s changes = s"
  unfolding onFilesChanged_def
  by (induction changes) (simp_all add: onFileChanged_def)

lemma packratAction_not_none: "packratAction action \<noteq> PACKRAT_ACTION_NONE"
  by (simp add: packratAction_def)

text \<open>
  C7. While a running action is recorded, a file-change event does nothing at all, for a
  single path and for a batch: the state, and with it the store, the log of client events
  and queries and the process objects, is returned as it was. A start notification for the
  current project records an action other than none, whatever its name, so every batch of
  file changes after it is dropped, until the stop notification, which clears the recorded
  action.
\<close>

theorem file_changes_suppressed_while_running:
  "(s_runningPackratAction s \<noteq> PACKRAT_ACTION_NONE \<longrightarrow>
      onFileChanged e s p = s \<and> onFilesChanged e s changes = s) \<and>
   (realPathsEqual e (projectDirectory e) project \<longrightarrow>
      s_runningPackratAction (onPackratAction e s project action True) \<noteq> PACKRAT_ACTION_NONE \<and>
      onFilesChanged e' (onPackratAction e s project action True) changes =
        onPackratAction e s project action True \<and>
      s_runningPackratAction (onPackratAction e s project action' False) = PACKRAT_ACTION_NONE)"
proof -
  have a: "onFileChanged e s p = s \<and> onFilesChanged e s changes = s"
    if "s_runningPackratAction s \<noteq> PACKRAT_ACTION_NONE"
    using that by (simp add: onFilesChanged_suppressed onFileChanged_def)
  have b: "s_runningPackratAction (onPackratAction e s project action True) \<noteq> PACKRAT_ACTION_NONE"
    if "realPathsEqual e (projectDirectory e) project"
    using that by (simp add: onPackratAction_def packratAction_not_none)
  have c: "s_runningPackratAction (onPackratAction e s project action' False) = PACKRAT_ACTION_NONE"
    if "realPathsEqual e (projectDirectory e) project"
    using that
    by (simp add: onPackratAction_def Let_def resolveStateAfterAction_frame
          split: PackratActionType.splits)
  show ?thesis
    using a b c by (simp add: onFilesChanged_suppressed)
qed

theorem file_changes_suppressed_while_running_witness:
  "realPathsEqual envX (projectDirectory envX) projDir \<and>
   s_runningPackratAction (onPackratAction envX initialState projDir ''restore'' True)
     = PACKRAT_ACTION_RESTORE \<and>
   onFileChanged envX (onPackratAction envX initialState projDir ''restore'' True)
     (projDir @ kPackratLockfilePath)
     = onPackratAction envX initialState projDir ''restore'' True \<and>
   onFilesChanged envX (onPackratAction envX initialState projDir ''restore'' True)
     [projDir @ kPackratLockfilePath, libDir @ [''pkg'', ''DESCRIPTION'']]
     = onPackratAction envX initialState projDir ''restore'' True \<and>
   s_runningPackratAction
     (onPackratAction envX (onPackratAction envX initialState projDir ''restore'' True)
        projDir ''restore'' False) = PACKRAT_ACTION_NONE \<and>
   effects (onFileChanged envX initialState (projDir @ kPackratLockfilePath))
     = [InstalledPackagesChanged]"
proof -
  let ?s1 = "onPackratAction envX initialState projDir ''restore'' True"
  have match: "realPathsEqual envX (projectDirectory envX) projDir"
    by (simp add: envX_def)
  have act: "s_runningPackratAction ?s1 = PACKRAT_ACTION_RESTORE"
    using match
    by (simp add: onPackratAction_def packratAction_def kPackratActionSnapshot_def
          kPackratActionRestore_def)
  then have run: "s_runningPackratAction ?s1 \<noteq> PACKRAT_ACTION_NONE"
    by simp
  note sup = file_changes_suppressed_while_running
      [of ?s1 envX "projDir @ kPackratLockfilePath"
          "[projDir @ kPackratLockfilePath, libDir @ [''pkg'', ''DESCRIPTION'']]"
          projDir "''restore''" envX "''restore''"]
  have quiet: "onFileChanged envX ?s1 (projDir @ kPackratLockfilePath) = ?s1 \<and>
      onFilesChanged envX ?s1
        [projDir @ kPackratLockfilePath, libDir @ [''pkg'', ''DESCRIPTION'']] = ?s1"
    using sup [THEN conjunct1] run by blast
  have stop: "s_runningPackratAction (onPackratAction envX ?s1 projDir ''restore'' False)
      = PACKRAT_ACTION_NONE"
    using sup [THEN conjunct2] match by blast
  have live: "effects (onFileChanged envX initialState (projDir @ kPackratLockfilePath))
      = [InstalledPackagesChanged]"
    by (simp add: onFileChanged_def initialState_def filename_def kPackratLockfilePath_def
          checkHashes_lockfile getHash_def computeLockfileHash_envX emitPackagesChanged_def)
  from match act quiet stop live show ?thesis by blast
qed

subsection \<open>Which callback writes which stored hash\<close>

lemma envX_fields:
  "projectDirectory envX = projDir"
  "getAutoSnapshotCmd envX p = Some ''packrat::snapshot()''"
  "realPathsEqual envX a b = (a = b)"
  "pendingActionsR envX action p = RpcValue [] True"
  by (simp_all add: envX_def)

lemma updateHash_store_other:
  "k \<noteq> keyOfHashType t hs \<Longrightarrow>
   projectPersistent (snd (updateHash e s t hs)) k = projectPersistent s k"
  by (simp add: updateHash_def Let_def)

lemma resolveStateAfterAction_observed:
  "projectPersistent (resolveStateAfterAction e s a t) (keyOfHashType t' HASH_STATE_OBSERVED) =
     projectPersistent s (keyOfHashType t' HASH_STATE_OBSERVED)"
  by (simp add: resolveStateAfterAction_unfold Let_def updateHash_store_other
        keyOfHashType_eq_iff emitPackagesChanged_def)

lemma pendingSnapshot_observed:
  "projectPersistent (pendingSnapshot e s action) (keyOfHashType t' HASH_STATE_OBSERVED) =
     projectPersistent s (keyOfHashType t' HASH_STATE_OBSERVED)"
  by (subst pendingSnapshot.simps)
     (simp add: performAutoSnapshot_store resolveStateAfterAction_observed)

lemma onProcessCompleted_observed:
  "projectPersistent (onProcessCompleted e s i exitStatus) (keyOfHashType t' HASH_STATE_OBSERVED) =
     projectPersistent s (keyOfHashType t' HASH_STATE_OBSERVED)"
  by (simp add: onProcessCompleted_def onCompleted_def pendingSnapshot_observed)

lemma onPackratAction_observed:
  "projectPersistent (onPackratAction e s project action r) (keyOfHashType t' HASH_STATE_OBSERVED) =
     projectPersistent s (keyOfHashType t' HASH_STATE_OBSERVED)"
  by (simp add: onPackratAction_def Let_def resolveStateAfterAction_observed
        split: PackratActionType.splits)

lemma annotatePendingActions_resolved:
  "projectPersistent (snd (annotatePendingActions e s)) (keyOfHashType t' HASH_STATE_RESOLVED) =
     projectPersistent s (keyOfHashType t' HASH_STATE_RESOLVED)"
  by (simp add: annotatePendingActions_store updateHash_store_other keyOfHashType_eq_iff)

lemma isHashUnresolved_iff:
  "isHashUnresolved e s t =
     (getHash e s t HASH_STATE_OBSERVED \<noteq> [] \<and> getHash e s t HASH_STATE_RESOLVED \<noteq> [] \<and>
      getHash e s t HASH_STATE_OBSERVED \<noteq> getHash e s t HASH_STATE_RESOLVED)"
  by (simp add: isHashUnresolved_def Let_def)

text \<open>
  C9. Handling a file-change event writes no persisted hash: the project-persistent store
  is the same after \<open>onFileChanged\<close>, after a batch in \<open>onFilesChanged\<close> and after
  either call of \<open>checkHashes\<close> as before, whether the hashes matched or not. The
  stored OBSERVED entries are left alone by resolution and by every callback that leads to
  it (action notifications, the exit of the snapshot subprocess), so only the annotation
  of the pending actions writes them; the stored RESOLVED entries are left alone by that
  annotation, so only resolution writes them.
\<close>

theorem file_change_writes_no_hash:
  "projectPersistent (onFileChanged e s p) = projectPersistent s \<and>
   projectPersistent (onFilesChanged e s changes) = projectPersistent s \<and>
   projectPersistent (checkHashes e s HASH_TYPE_LOCKFILE HASH_STATE_OBSERVED onLockfileUpdate)
     = projectPersistent s \<and>
   projectPersistent (checkHashes e s HASH_TYPE_LIBRARY HASH_STATE_OBSERVED onLibraryUpdate)
     = projectPersistent s \<and>
   projectPersistent (resolveStateAfterAction e s a t) (keyOfHashType t' HASH_STATE_OBSERVED)
     = projectPersistent s (keyOfHashType t' HASH_STATE_OBSERVED) \<and>
   projectPersistent (onPackratAction e s project action r) (keyOfHashType t' HASH_STATE_OBSERVED)
     = projectPersistent s (keyOfHashType t' HASH_STATE_OBSERVED) \<and>
   projectPersistent (onProcessCompleted e s i exitStatus) (keyOfHashType t' HASH_STATE_OBSERVED)
     = projectPersistent s (keyOfHashType t' HASH_STATE_OBSERVED) \<and>
   projectPersistent (snd (annotatePendingActions e s)) (keyOfHashType t' HASH_STATE_RESOLVED)
     = projectPersistent s (keyOfHashType t' HASH_STATE_RESOLVED)"
  by (simp add: onFileChanged_store onFilesChanged_store checkHashes_lockfile_store
        checkHashes_library_store resolveStateAfterAction_observed onPackratAction_observed
        onProcessCompleted_observed annotatePendingActions_resolved)

theorem file_change_writes_no_hash_witness:
  "projectPersistent (onFileChanged envX initialState (projDir @ kPackratLockfilePath)) = Map.empty \<and>
   effects (onFileChanged envX initialState (projDir @ kPackratLockfilePath))
     = [InstalledPackagesChanged] \<and>
   getHash envX initialState HASH_TYPE_LOCKFILE HASH_STATE_OBSERVED = [] \<and>
   computeLockfileHash envX = ''B7B2364B''"
proof -
  have store: "projectPersistent (onFileChanged envX initialState (projDir @ kPackratLockfilePath))
      = projectPersistent initialState"
    by (rule file_change_writes_no_hash [THEN conjunct1])
  have live: "effects (onFileChanged envX initialState (projDir @ kPackratLockfilePath))
      = [InstalledPackagesChanged]"
    by (simp add: onFileChanged_def initialState_def filename_def kPackratLockfilePath_def
          checkHashes_lockfile getHash_def computeLockfileHash_envX emitPackagesChanged_def)
  show ?thesis
    using store live by (simp add: initialState_def getHash_def computeLockfileHash_envX)
qed

subsection \<open>Library changes\<close>

text \<open>
  C6. A library change that \<open>checkHashes\<close> processes (the call is not a re-entrant one)
  and whose observed and computed library hashes differ: when the lockfile is unresolved,
  that is, its stored OBSERVED and RESOLVED hashes are both non-empty and differ, the
  only thing that happens is one client event (no snapshot request, no new process
  object); otherwise \<open>performAutoSnapshot\<close> is called with the computed library hash.
\<close>

theorem library_change_snapshot_or_refresh:
  assumes "recursionCount s = 0"
    and "getHash e s HASH_TYPE_LIBRARY HASH_STATE_OBSERVED \<noteq> computeLibraryHash e"
  shows "checkHashes e s HASH_TYPE_LIBRARY HASH_STATE_OBSERVED onLibraryUpdate =
           (if isHashUnresolved e s HASH_TYPE_LOCKFILE
            then s\<lparr>effects := effects s @ [InstalledPackagesChanged]\<rparr>
            else performAutoSnapshot e s (computeLibraryHash e)) \<and>
         isHashUnresolved e s HASH_TYPE_LOCKFILE =
           (getHash e s HASH_TYPE_LOCKFILE HASH_STATE_OBSERVED \<noteq> [] \<and>
            getHash e s HASH_TYPE_LOCKFILE HASH_STATE_RESOLVED \<noteq> [] \<and>
            getHash e s HASH_TYPE_LOCKFILE HASH_STATE_OBSERVED \<noteq>
              getHash e s HASH_TYPE_LOCKFILE HASH_STATE_RESOLVED)"
  using assms
  by (simp add: checkHashes_library emitPackagesChanged_def isHashUnresolved_iff)

theorem library_change_snapshot_or_refresh_witness:
  "recursionCount stateLockfileUnresolved = 0 \<and>
   getHash envX stateLockfileUnresolved HASH_TYPE_LIBRARY HASH_STATE_OBSERVED
     \<noteq> computeLibraryHash envX \<and>
   isHashUnresolved envX stateLockfileUnresolved HASH_TYPE_LOCKFILE \<and>
   checkHashes envX stateLockfileUnresolved HASH_TYPE_LIBRARY HASH_STATE_OBSERVED onLibraryUpdate
     = stateLockfileUnresolved\<lparr>effects := [InstalledPackagesChanged]\<rparr> \<and>
   recursionCount initialState = 0 \<and>
   getHash envX initialState HASH_TYPE_LIBRARY HASH_STATE_OBSERVED \<noteq> computeLibraryHash envX \<and>
   \<not> isHashUnresolved envX initialState HASH_TYPE_LOCKFILE \<and>
   checkHashes envX initialState HASH_TYPE_LIBRARY HASH_STATE_OBSERVED onLibraryUpdate
     = initialState\<lparr>procs := [\<lparr> targetHash = ''72F618E8'', command = ''packrat::snapshot()'',
                                 running = True \<rparr>],
                     pAutoSnapshot := Some 0\<rparr>"
proof -
  have u0: "recursionCount stateLockfileUnresolved = 0"
    by (simp add: stateLockfileUnresolved_def initialState_def)
  have u1: "getHash envX stateLockfileUnresolved HASH_TYPE_LIBRARY HASH_STATE_OBSERVED
      \<noteq> computeLibraryHash envX"
    by (simp add: stateLockfileUnresolved_def initialState_def getHash_def keyOfHashType_def
          computeLibraryHash_envX)
  have u2: "isHashUnresolved envX stateLockfileUnresolved HASH_TYPE_LOCKFILE"
    by (simp add: stateLockfileUnresolved_def initialState_def isHashUnresolved_def getHash_def
          keyOfHashType_def)
  have u3: "checkHashes envX stateLockfileUnresolved HASH_TYPE_LIBRARY HASH_STATE_OBSERVED
      onLibraryUpdate = stateLockfileUnresolved\<lparr>effects := [InstalledPackagesChanged]\<rparr>"
    using library_change_snapshot_or_refresh [OF u0 u1, THEN conjunct1] u2
    by (simp add: stateLockfileUnresolved_def initialState_def)
  have i0: "recursionCount initialState = 0"
    by (simp add: initialState_def)
  have i1: "getHash envX initialState HASH_TYPE_LIBRARY HASH_STATE_OBSERVED
      \<noteq> computeLibraryHash envX"
    by (simp add: initialState_def getHash_def computeLibraryHash_envX)
  have i2: "\<not> isHashUnresolved envX initialState HASH_TYPE_LOCKFILE"
    by (simp add: initialState_def isHashUnresolved_def getHash_def)
  have i3: "checkHashes envX initialState HASH_TYPE_LIBRARY HASH_STATE_OBSERVED onLibraryUpdate
      = initialState\<lparr>procs := [\<lparr> targetHash = ''72F618E8'', command = ''packrat::snapshot()'',
                                  running = True \<rparr>],
                      pAutoSnapshot := Some 0\<rparr>"
    using library_change_snapshot_or_refresh [OF i0 i1, THEN conjunct1] i2
    by (simp add: performAutoSnapshot_unfold computeLibraryHash_envX initialState_def envX_fields)
  from u0 u1 u2 u3 i0 i1 i2 i3 show ?thesis by blast
qed

subsection \<open>Repeated checks\<close>

text \<open>
  C5, as stated, fails. With lockfile content \<open>X\<close> and no prior state, the first
  lockfile change event stores nothing (the OBSERVED lockfile hash is still empty
  afterwards, while the computed one is \<open>B7B2364B\<close>) and emits one client event; the
  second one, with nothing changed in between, emits a second client event.
\<close>

theorem checkHashes_second_call_counterexample:
  "getHash envX (onFileChanged envX initialState (projDir @ kPackratLockfilePath))
     HASH_TYPE_LOCKFILE HASH_STATE_OBSERVED = [] \<and>
   computeLockfileHash envX = ''B7B2364B'' \<and>
   effects (onFileChanged envX initialState (projDir @ kPackratLockfilePath))
     = [InstalledPackagesChanged] \<and>
   effects (onFileChanged envX
              (onFileChanged envX initialState (projDir @ kPackratLockfilePath))
              (projDir @ kPackratLockfilePath))
     = [InstalledPackagesChanged, InstalledPackagesChanged] \<and>
   getHash envX (onFileChanged envX initialState (projDir @ kPackratLockfilePath))
     HASH_TYPE_LOCKFILE HASH_STATE_OBSERVED \<noteq> computeLockfileHash envX \<and>
   onFileChanged envX (onFileChanged envX initialState (projDir @ kPackratLockfilePath))
     (projDir @ kPackratLockfilePath)
     \<noteq> onFileChanged envX initialState (projDir @ kPackratLockfilePath)"
proof -
  have first: "onFileChanged envX initialState (projDir @ kPackratLockfilePath)
      = initialState\<lparr>effects := [InstalledPackagesChanged]\<rparr>"
    by (simp add: onFileChanged_def initialState_def filename_def kPackratLockfilePath_def
          checkHashes_lockfile getHash_def computeLockfileHash_envX emitPackagesChanged_def)
  have second: "onFileChanged envX (initialState\<lparr>effects := [InstalledPackagesChanged]\<rparr>)
        (projDir @ kPackratLockfilePath)
      = initialState\<lparr>effects := [InstalledPackagesChanged, InstalledPackagesChanged]\<rparr>"
    by (simp add: onFileChanged_def initialState_def filename_def kPackratLockfilePath_def
          checkHashes_lockfile getHash_def computeLockfileHash_envX emitPackagesChanged_def)
  show ?thesis
    by (simp add: first second computeLockfileHash_envX)
       (simp add: initialState_def getHash_def)
qed

text \<open>
  C5, amended. \<open>checkHashes\<close> does not store OBSERVED: the stored OBSERVED hashes are the
  same after a call as before it. So a second consecutive call with nothing changed in
  between compares the same hashes and reacts as the first did: for the lockfile, and for
  the library while the lockfile is unresolved, each of the two calls emits one client
  event. A call is a no-op once the annotation of the pending actions, which stores
  OBSERVED as the computed hash for both entities, has run with nothing changed since.
\<close>

theorem checkHashes_reacts_until_observed:
  assumes "recursionCount s = 0"
  shows
    "getHash e (checkHashes e s HASH_TYPE_LOCKFILE HASH_STATE_OBSERVED onLockfileUpdate)
       t HASH_STATE_OBSERVED = getHash e s t HASH_STATE_OBSERVED \<and>
     getHash e (checkHashes e s HASH_TYPE_LIBRARY HASH_STATE_OBSERVED onLibraryUpdate)
       t HASH_STATE_OBSERVED = getHash e s t HASH_STATE_OBSERVED \<and>
     (getHash e s HASH_TYPE_LOCKFILE HASH_STATE_OBSERVED \<noteq> computeLockfileHash e \<longrightarrow>
        checkHashes e s HASH_TYPE_LOCKFILE HASH_STATE_OBSERVED onLockfileUpdate
          = emitPackagesChanged s \<and>
        checkHashes e (checkHashes e s HASH_TYPE_LOCKFILE HASH_STATE_OBSERVED onLockfileUpdate)
            HASH_TYPE_LOCKFILE HASH_STATE_OBSERVED onLockfileUpdate
          = emitPackagesChanged (emitPackagesChanged s)) \<and>
     (getHash e s HASH_TYPE_LIBRARY HASH_STATE_OBSERVED \<noteq> computeLibraryHash e \<and>
      isHashUnresolved e s HASH_TYPE_LOCKFILE \<longrightarrow>
        checkHashes e s HASH_TYPE_LIBRARY HASH_STATE_OBSERVED onLibraryUpdate
          = emitPackagesChanged s \<and>
        checkHashes e (checkHashes e s HASH_TYPE_LIBRARY HASH_STATE_OBSERVED onLibraryUpdate)
            HASH_TYPE_LIBRARY HASH_STATE_OBSERVED onLibraryUpdate
          = emitPackagesChanged (emitPackagesChanged s)) \<and>
     checkHashes e (snd (annotatePendingActions e s))
         HASH_TYPE_LOCKFILE HASH_STATE_OBSERVED onLockfileUpdate
       = snd (annotatePendingActions e s) \<and>
     checkHashes e (snd (annotatePendingActions e s))
         HASH_TYPE_LIBRARY HASH_STATE_OBSERVED onLibraryUpdate
       = snd (annotatePendingActions e s)"
proof -
  have emit: "recursionCount (emitPackagesChanged s) \<le> 0"
      "getHash e (emitPackagesChanged s) t' hs = getHash e s t' hs"
      "isHashUnresolved e (emitPackagesChanged s) t' = isHashUnresolved e s t'" for t' hs
    using assms by (simp_all add: emitPackagesChanged_def getHash_def isHashUnresolved_def)
  have kept: "getHash e (checkHashes e s HASH_TYPE_LOCKFILE HASH_STATE_OBSERVED onLockfileUpdate)
         t HASH_STATE_OBSERVED = getHash e s t HASH_STATE_OBSERVED"
      "getHash e (checkHashes e s HASH_TYPE_LIBRARY HASH_STATE_OBSERVED onLibraryUpdate)
         t HASH_STATE_OBSERVED = getHash e s t HASH_STATE_OBSERVED"
    by (rule getHash_frame, rule checkHashes_lockfile_store)
       (rule getHash_frame, rule checkHashes_library_store)
  have lock: "checkHashes e s HASH_TYPE_LOCKFILE HASH_STATE_OBSERVED onLockfileUpdate
          = emitPackagesChanged s \<and>
        checkHashes e (checkHashes e s HASH_TYPE_LOCKFILE HASH_STATE_OBSERVED onLockfileUpdate)
            HASH_TYPE_LOCKFILE HASH_STATE_OBSERVED onLockfileUpdate
          = emitPackagesChanged (emitPackagesChanged s)"
    if "getHash e s HASH_TYPE_LOCKFILE HASH_STATE_OBSERVED \<noteq> computeLockfileHash e"
    using that assms by (simp add: checkHashes_lockfile emit)
  have lib: "checkHashes e s HASH_TYPE_LIBRARY HASH_STATE_OBSERVED onLibraryUpdate
          = emitPackagesChanged s \<and>
        checkHashes e (checkHashes e s HASH_TYPE_LIBRARY HASH_STATE_OBSERVED onLibraryUpdate)
            HASH_TYPE_LIBRARY HASH_STATE_OBSERVED onLibraryUpdate
          = emitPackagesChanged (emitPackagesChanged s)"
    if "getHash e s HASH_TYPE_LIBRARY HASH_STATE_OBSERVED \<noteq> computeLibraryHash e"
      and "isHashUnresolved e s HASH_TYPE_LOCKFILE"
    using that assms by (simp add: checkHashes_library emit)
  have rc: "recursionCount (snd (annotatePendingActions e s)) \<le> 0"
    using assms by (simp add: annotatePendingActions_frame)
  have ann: "checkHashes e (snd (annotatePendingActions e s))
         HASH_TYPE_LOCKFILE HASH_STATE_OBSERVED onLockfileUpdate
       = snd (annotatePendingActions e s)"
     "checkHashes e (snd (annotatePendingActions e s))
         HASH_TYPE_LIBRARY HASH_STATE_OBSERVED onLibraryUpdate
       = snd (annotatePendingActions e s)"
    using rc by (simp_all add: checkHashes_lockfile checkHashes_library
          annotatePendingActions_observed)
  from lock
  have lock': "getHash e s HASH_TYPE_LOCKFILE HASH_STATE_OBSERVED \<noteq> computeLockfileHash e \<longrightarrow>
        checkHashes e s HASH_TYPE_LOCKFILE HASH_STATE_OBSERVED onLockfileUpdate
          = emitPackagesChanged s \<and>
        checkHashes e (checkHashes e s HASH_TYPE_LOCKFILE HASH_STATE_OBSERVED onLockfileUpdate)
            HASH_TYPE_LOCKFILE HASH_STATE_OBSERVED onLockfileUpdate
          = emitPackagesChanged (emitPackagesChanged s)"
    by (rule impI)
  from lib
  have lib': "getHash e s HASH_TYPE_LIBRARY HASH_STATE_OBSERVED \<noteq> computeLibraryHash e \<and>
      isHashUnresolved e s HASH_TYPE_LOCKFILE \<longrightarrow>
        checkHashes e s HASH_TYPE_LIBRARY HASH_STATE_OBSERVED onLibraryUpdate
          = emitPackagesChanged s \<and>
        checkHashes e (checkHashes e s HASH_TYPE_LIBRARY HASH_STATE_OBSERVED onLibraryUpdate)
            HASH_TYPE_LIBRARY HASH_STATE_OBSERVED onLibraryUpdate
          = emitPackagesChanged (emitPackagesChanged s)"
    by (intro impI) (elim conjE)
  show ?thesis
    by (rule conjI [OF kept(1) conjI [OF kept(2) conjI [OF lock' conjI [OF lib'
          conjI [OF ann(1) ann(2)]]]]])
qed

theorem checkHashes_reacts_until_observed_witness:
  "recursionCount initialState = 0 \<and>
   getHash envX initialState HASH_TYPE_LOCKFILE HASH_STATE_OBSERVED \<noteq> computeLockfileHash envX \<and>
   checkHashes envX
       (checkHashes envX initialState HASH_TYPE_LOCKFILE HASH_STATE_OBSERVED onLockfileUpdate)
       HASH_TYPE_LOCKFILE HASH_STATE_OBSERVED onLockfileUpdate
     = initialState\<lparr>effects := [InstalledPackagesChanged, InstalledPackagesChanged]\<rparr> \<and>
   getHash envX (snd (annotatePendingActions envX initialState))
       HASH_TYPE_LOCKFILE HASH_STATE_OBSERVED = ''B7B2364B'' \<and>
   checkHashes envX (snd (annotatePendingActions envX initialState))
       HASH_TYPE_LOCKFILE HASH_STATE_OBSERVED onLockfileUpdate
     = snd (annotatePendingActions envX initialState)"
proof -
  have rc: "recursionCount initialState = 0"
    by (simp add: initialState_def)
  have differ: "getHash envX initialState HASH_TYPE_LOCKFILE HASH_STATE_OBSERVED
      \<noteq> computeLockfileHash envX"
    by (simp add: initialState_def getHash_def computeLockfileHash_envX)
  note react = checkHashes_reacts_until_observed [OF rc, of envX HASH_TYPE_LOCKFILE]
  have twice: "checkHashes envX
       (checkHashes envX initialState HASH_TYPE_LOCKFILE HASH_STATE_OBSERVED onLockfileUpdate)
       HASH_TYPE_LOCKFILE HASH_STATE_OBSERVED onLockfileUpdate
     = initialState\<lparr>effects := [InstalledPackagesChanged, InstalledPackagesChanged]\<rparr>"
    using react [THEN conjunct2, THEN conjunct2, THEN conjunct1, THEN mp, OF differ,
        THEN conjunct2]
    by (simp add: emitPackagesChanged_def initialState_def)
  have stored: "getHash envX (snd (annotatePendingActions envX initialState))
       HASH_TYPE_LOCKFILE HASH_STATE_OBSERVED = ''B7B2364B''"
    by (simp add: annotatePendingActions_observed computeLockfileHash_envX)
  have quiet: "checkHashes envX (snd (annotatePendingActions envX initialState))
       HASH_TYPE_LOCKFILE HASH_STATE_OBSERVED onLockfileUpdate
     = snd (annotatePendingActions envX initialState)"
    by (rule react [THEN conjunct2, THEN conjunct2, THEN conjunct2, THEN conjunct2,
          THEN conjunct1])
  show ?thesis
    by (rule conjI [OF rc conjI [OF differ conjI [OF twice conjI [OF stored quiet]]]])
qed

subsection \<open>Failures of the external tool\<close>

lemma getPendingActions_RpcError:
  "pendingActionsR e (packratActionName action) (projectDirectory e) = RpcError \<Longrightarrow>
   \<not> fst (getPendingActions e s action w)"
  by (simp add: getPendingActions_def Let_def)

lemma onCompleted_failure: "exitStatus \<noteq> 0 \<Longrightarrow> onCompleted e s exitStatus = s"
  by (simp add: onCompleted_def)

lemma hashes_pendingActionsR_update:
  "computeLockfileHash (e\<lparr>pendingActionsR := f\<rparr>) = computeLockfileHash e"
  "computeLibraryHash (e\<lparr>pendingActionsR := f\<rparr>) = computeLibraryHash e"
  by (simp_all add: computeLockfileHash_def computeLibraryHash_def Let_def
        split: file_read.splits)

lemma envRpcError_hashes:
  "computeLockfileHash envRpcError = ''B7B2364B''"
  "computeLibraryHash envRpcError = ''72F618E8''"
  by (simp_all add: envRpcError_def hashes_pendingActionsR_update
        computeLockfileHash_envX computeLibraryHash_envX)

text \<open>
  C4, as stated, fails for a failing pending-actions query. With no stored hash at all
  and a query that fails, resolution after a snapshot stores both RESOLVED hashes: the
  lockfile's changes from empty to \<open>B7B2364B\<close>, the library's from empty to
  \<open>72F618E8\<close>.
\<close>

theorem rpc_error_resolves_counterexample:
  "pendingActionsR envRpcError (packratActionName PACKRAT_ACTION_SNAPSHOT)
     (projectDirectory envRpcError) = RpcError \<and>
   getHash envRpcError initialState HASH_TYPE_LOCKFILE HASH_STATE_RESOLVED = [] \<and>
   getHash envRpcError initialState HASH_TYPE_LIBRARY HASH_STATE_RESOLVED = [] \<and>
   getHash envRpcError
     (resolveStateAfterAction envRpcError initialState PACKRAT_ACTION_SNAPSHOT HASH_TYPE_LIBRARY)
     HASH_TYPE_LOCKFILE HASH_STATE_RESOLVED = ''B7B2364B'' \<and>
   getHash envRpcError
     (resolveStateAfterAction envRpcError initialState PACKRAT_ACTION_SNAPSHOT HASH_TYPE_LIBRARY)
     HASH_TYPE_LIBRARY HASH_STATE_RESOLVED = ''72F618E8'' \<and>
   getHash envRpcError
     (resolveStateAfterAction envRpcError initialState PACKRAT_ACTION_SNAPSHOT HASH_TYPE_LIBRARY)
     HASH_TYPE_LOCKFILE HASH_STATE_RESOLVED
     \<noteq> getHash envRpcError initialState HASH_TYPE_LOCKFILE HASH_STATE_RESOLVED"
proof -
  have err: "pendingActionsR envRpcError (packratActionName PACKRAT_ACTION_SNAPSHOT)
      (projectDirectory envRpcError) = RpcError"
    by (simp add: envRpcError_def)
  have before: "getHash envRpcError initialState HASH_TYPE_LOCKFILE HASH_STATE_RESOLVED = []"
      "getHash envRpcError initialState HASH_TYPE_LIBRARY HASH_STATE_RESOLVED = []"
    by (simp_all add: getHash_def initialState_def)
  have after: "getHash envRpcError
      (resolveStateAfterAction envRpcError initialState PACKRAT_ACTION_SNAPSHOT HASH_TYPE_LIBRARY)
      HASH_TYPE_LIBRARY HASH_STATE_RESOLVED = computeLibraryHash envRpcError \<and>
    getHash envRpcError
      (resolveStateAfterAction envRpcError initialState PACKRAT_ACTION_SNAPSHOT HASH_TYPE_LIBRARY)
      HASH_TYPE_LOCKFILE HASH_STATE_RESOLVED = computeLockfileHash envRpcError"
    using resolveStateAfterAction_none_pending
        [OF getPendingActions_RpcError [OF err, of initialState False], of HASH_TYPE_LIBRARY]
    by simp
  show ?thesis
    using err before after by (simp add: envRpcError_hashes)
qed

text \<open>
  C4, amended. A snapshot subprocess that exits with a non-zero status changes nothing:
  \<open>onCompleted\<close> returns the state as it is, and the persistent store is the same after
  the exit as before. A failing pending-actions query during resolution is taken as
  no pending actions: the stored RESOLVED hashes of the library and of the lockfile are
  then both set to the current computed hashes.
\<close>

theorem failures_and_resolved_state:
  "(exitStatus \<noteq> 0 \<longrightarrow>
      onCompleted e s exitStatus = s \<and>
      projectPersistent (onProcessCompleted e s i exitStatus) = projectPersistent s) \<and>
   (pendingActionsR e (packratActionName action) (projectDirectory e) = RpcError \<longrightarrow>
      getHash e (resolveStateAfterAction e s action hashType) HASH_TYPE_LIBRARY HASH_STATE_RESOLVED
        = computeLibraryHash e \<and>
      getHash e (resolveStateAfterAction e s action hashType) HASH_TYPE_LOCKFILE HASH_STATE_RESOLVED
        = computeLockfileHash e)"
proof (intro conjI impI)
  assume "exitStatus \<noteq> 0"
  then show "onCompleted e s exitStatus = s"
    by (rule onCompleted_failure)
next
  assume "exitStatus \<noteq> 0"
  then show "projectPersistent (onProcessCompleted e s i exitStatus) = projectPersistent s"
    by (simp add: onProcessCompleted_def onCompleted_failure)
next
  assume err: "pendingActionsR e (packratActionName action) (projectDirectory e) = RpcError"
  from resolveStateAfterAction_none_pending
    [OF getPendingActions_RpcError [OF err, of s False], of hashType]
  have "getHash e (resolveStateAfterAction e s action hashType) HASH_TYPE_LIBRARY HASH_STATE_RESOLVED
        = computeLibraryHash e \<and>
      getHash e (resolveStateAfterAction e s action hashType) HASH_TYPE_LOCKFILE HASH_STATE_RESOLVED
        = computeLockfileHash e"
    by simp
  then show "getHash e (resolveStateAfterAction e s action hashType)
        HASH_TYPE_LIBRARY HASH_STATE_RESOLVED = computeLibraryHash e"
    and "getHash e (resolveStateAfterAction e s action hashType)
        HASH_TYPE_LOCKFILE HASH_STATE_RESOLVED = computeLockfileHash e"
    by simp_all
qed

theorem failures_and_resolved_state_witness:
  "(1::int) \<noteq> 0 \<and>
   onCompleted envX stateLockfileUnresolved 1 = stateLockfileUnresolved \<and>
   pendingActionsR envRpcError (packratActionName PACKRAT_ACTION_RESTORE)
     (projectDirectory envRpcError) = RpcError \<and>
   getHash envRpcError stateLockfileUnresolved HASH_TYPE_LOCKFILE HASH_STATE_RESOLVED
     = ''00000000'' \<and>
   getHash envRpcError
     (resolveStateAfterAction envRpcError stateLockfileUnresolved PACKRAT_ACTION_RESTORE
        HASH_TYPE_LOCKFILE)
     HASH_TYPE_LOCKFILE HASH_STATE_RESOLVED = ''B7B2364B''"
proof -
  note th = failures_and_resolved_state
      [of 1 envX stateLockfileUnresolved 0 PACKRAT_ACTION_RESTORE HASH_TYPE_LOCKFILE]
  note th' = failures_and_resolved_state
      [of 1 envRpcError stateLockfileUnresolved 0 PACKRAT_ACTION_RESTORE HASH_TYPE_LOCKFILE]
  have nz: "(1::int) \<noteq> 0" by simp
  have err: "pendingActionsR envRpcError (packratActionName PACKRAT_ACTION_RESTORE)
      (projectDirectory envRpcError) = RpcError"
    by (simp add: envRpcError_def)
  have a: "onCompleted envX stateLockfileUnresolved 1 = stateLockfileUnresolved"
    using th [THEN conjunct1, THEN mp, OF nz, THEN conjunct1] .
  have b: "getHash envRpcError stateLockfileUnresolved HASH_TYPE_LOCKFILE HASH_STATE_RESOLVED
      = ''00000000''"
    by (simp add: getHash_def stateLockfileUnresolved_def initialState_def keyOfHashType_def)
  have c: "getHash envRpcError
      (resolveStateAfterAction envRpcError stateLockfileUnresolved PACKRAT_ACTION_RESTORE
         HASH_TYPE_LOCKFILE)
      HASH_TYPE_LOCKFILE HASH_STATE_RESOLVED = ''B7B2364B''"
    using th' [THEN conjunct2, THEN mp, OF err, THEN conjunct2]
    by (simp add: envRpcError_hashes)
  show ?thesis
    by (rule conjI [OF nz conjI [OF a conjI [OF err conjI [OF b c]]]])
qed

subsection \<open>Which paths count\<close>

lemma envX_snapshot_from_idle:
  "performAutoSnapshot envX initialState h =
     initialState\<lparr>procs := [\<lparr> targetHash = h, command = ''packrat::snapshot()'',
                                 running = True \<rparr>],
                     pAutoSnapshot := Some 0\<rparr>"
  by (simp add: performAutoSnapshot_unfold initialState_def envX_fields)

text \<open>
  C8, as stated, fails below the first level of a reserved directory. A DESCRIPTION file
  directly inside the library's \<open>rstudio\<close> directory is ignored, but one in a
  subdirectory of it (which lies within the reserved directory as well) is handled as a
  library change: from the initial state it starts a snapshot subprocess.
\<close>

theorem reserved_descendant_counterexample:
  "isWithin (libDir @ [''rstudio'', ''inst'', ''DESCRIPTION'']) (libDir @ [''rstudio'']) \<and>
   onFileChanged envX initialState (libDir @ [''rstudio'', ''DESCRIPTION'']) = initialState \<and>
   onFileChanged envX initialState (libDir @ [''rstudio'', ''inst'', ''DESCRIPTION''])
     = initialState\<lparr>procs := [\<lparr> targetHash = ''72F618E8'', command = ''packrat::snapshot()'',
                                   running = True \<rparr>],
                       pAutoSnapshot := Some 0\<rparr> \<and>
   onFileChanged envX initialState (libDir @ [''rstudio'', ''inst'', ''DESCRIPTION''])
     \<noteq> initialState"
proof -
  have within: "isWithin (libDir @ [''rstudio'', ''inst'', ''DESCRIPTION'']) (libDir @ [''rstudio''])"
    by (simp add: isWithin_def)
  have child: "onFileChanged envX initialState (libDir @ [''rstudio'', ''DESCRIPTION''])
      = initialState"
    by (simp add: onFileChanged_def Let_def envX_fields libDir_def complete_def isWithin_def
          filename_def parent_def kPackratLockfile_def projDir_def kPackratLibPath_def
          initialState_def)
  have rc: "recursionCount initialState \<le> 0"
    by (simp add: initialState_def)
  have check: "checkHashes envX initialState HASH_TYPE_LIBRARY HASH_STATE_OBSERVED onLibraryUpdate
      = performAutoSnapshot envX initialState ''72F618E8''"
    by (simp add: checkHashes_library [OF rc] computeLibraryHash_envX)
       (simp add: initialState_def getHash_def isHashUnresolved_def)
  have deep: "onFileChanged envX initialState (libDir @ [''rstudio'', ''inst'', ''DESCRIPTION''])
      = checkHashes envX initialState HASH_TYPE_LIBRARY HASH_STATE_OBSERVED onLibraryUpdate"
    by (simp add: onFileChanged_def Let_def envX_fields libDir_def complete_def isWithin_def
          filename_def parent_def kPackratLockfile_def projDir_def kPackratLibPath_def
          initialState_def)
  show ?thesis
    using within child
    by (simp add: deep check envX_snapshot_from_idle) (simp add: initialState_def)
qed

text \<open>
  C8, amended. While no action is running, a changed path is handled as a lockfile change
  exactly when its filename is \<open>packrat.lock\<close>, wherever it lies; otherwise it is
  handled as a library change exactly when it lies within the library root, is a
  directory or is named \<open>DESCRIPTION\<close>, and neither its own filename nor the filename
  of its parent is \<open>manipulate\<close> or \<open>rstudio\<close>; every other path is ignored. The
  exclusion reaches a reserved directory and what lies directly in it, no deeper.
\<close>

theorem file_change_classification:
  assumes "s_runningPackratAction s = PACKRAT_ACTION_NONE"
  shows "onFileChanged e s p =
     (if filename p = ''packrat.lock''
      then checkHashes e s HASH_TYPE_LOCKFILE HASH_STATE_OBSERVED onLockfileUpdate
      else if prefix (projectDirectory e @ [''packrat'', ''lib'']) p \<and>
              (isDirectory e p \<or> filename p = ''DESCRIPTION'') \<and>
              filename p \<notin> {''manipulate'', ''rstudio''} \<and>
              filename (parent p) \<notin> {''manipulate'', ''rstudio''}
      then checkHashes e s HASH_TYPE_LIBRARY HASH_STATE_OBSERVED onLibraryUpdate
      else s)"
  using assms
  by (auto simp add: onFileChanged_def Let_def kPackratLockfile_def kPackratLibPath_def
        complete_def isWithin_def)

theorem file_change_classification_witness:
  "s_runningPackratAction initialState = PACKRAT_ACTION_NONE \<and>
   onFileChanged envX initialState (libDir @ [''rstudio'', ''packrat.lock''])
     = checkHashes envX initialState HASH_TYPE_LOCKFILE HASH_STATE_OBSERVED onLockfileUpdate \<and>
   onFileChanged envX initialState (libDir @ [''pkg'', ''DESCRIPTION''])
     = checkHashes envX initialState HASH_TYPE_LIBRARY HASH_STATE_OBSERVED onLibraryUpdate \<and>
   onFileChanged envX initialState (libDir @ [''manipulate'']) = initialState \<and>
   onFileChanged envX initialState (libDir @ [''manipulate'', ''R'']) = initialState \<and>
   onFileChanged envX initialState (projDir @ [''R'', ''DESCRIPTION'']) = initialState"
proof -
  have none: "s_runningPackratAction initialState = PACKRAT_ACTION_NONE"
    by (simp add: initialState_def)
  note paths = envX_fields libDir_def complete_def filename_def parent_def projDir_def
    kPackratLibPath_def kPackratLockfile_def
  have a: "onFileChanged envX initialState (libDir @ [''rstudio'', ''packrat.lock''])
      = checkHashes envX initialState HASH_TYPE_LOCKFILE HASH_STATE_OBSERVED onLockfileUpdate"
    using file_change_classification [OF none, of envX "libDir @ [''rstudio'', ''packrat.lock'']"]
    by (simp add: paths)
  have b: "onFileChanged envX initialState (libDir @ [''pkg'', ''DESCRIPTION''])
      = checkHashes envX initialState HASH_TYPE_LIBRARY HASH_STATE_OBSERVED onLibraryUpdate"
    using file_change_classification [OF none, of envX "libDir @ [''pkg'', ''DESCRIPTION'']"]
    by (simp add: paths)
  have c: "onFileChanged envX initialState (libDir @ [''manipulate'']) = initialState"
    using file_change_classification [OF none, of envX "libDir @ [''manipulate'']"]
    by (simp add: paths)
  have d: "onFileChanged envX initialState (libDir @ [''manipulate'', ''R'']) = initialState"
    using file_change_classification [OF none, of envX "libDir @ [''manipulate'', ''R'']"]
    by (simp add: paths)
  have f: "onFileChanged envX initialState (projDir @ [''R'', ''DESCRIPTION'']) = initialState"
    using file_change_classification [OF none, of envX "projDir @ [''R'', ''DESCRIPTION'']"]
    by (simp add: paths)
  show ?thesis
    by (rule conjI [OF none conjI [OF a conjI [OF b conjI [OF c conjI [OF d f]]]]])
qed

subsection \<open>The exit of a snapshot with requests pending\<close>

lemma stateRunningWithPending_eq:
  "stateRunningWithPending =
     \<lparr> s_runningPackratAction = PACKRAT_ACTION_NONE,
       pendingSnapshots = 1,
       pAutoSnapshot = Some 0,
       procs = [\<lparr> targetHash = ''11111111'', command = ''packrat::snapshot()'',
                  running = True \<rparr>],
       recursionCount = 0,
       projectPersistent = Map.empty,
       effects = [] \<rparr>"
  by (simp add: stateRunningWithPending_def envX_snapshot_from_idle)
     (simp add: performAutoSnapshot_unfold isRunning_def initialState_def)

text \<open>
  C2. When the snapshot subprocess that \<open>pAutoSnapshot\<close> points to exits with status 0
  while the pending counter is positive, the counter is reset to 0 and a new process
  object is started at once whose target is the library hash computed at that moment
  from the environment of the exit (no hash of an earlier request is kept anywhere in the
  state); nothing is sent out and nothing is stored, so no resolution takes place.
\<close>

theorem exit_with_pending_restarts:
  assumes "pAutoSnapshot s = Some i" and "isRunning s i" and "0 <s pendingSnapshots s"
  shows "onProcessCompleted e s i 0 =
           s\<lparr>pendingSnapshots := 0,
             procs := (procs s)[i := (procs s ! i)\<lparr>running := False\<rparr>] @
                        [\<lparr> targetHash = computeLibraryHash e,
                           command = (case getAutoSnapshotCmd e (projectDirectory e) of
                                        Some c \<Rightarrow> c | None \<Rightarrow> []),
                           running = True \<rparr>],
             pAutoSnapshot := Some (length (procs s))\<rparr> \<and>
         effects (onProcessCompleted e s i 0) = effects s \<and>
         projectPersistent (onProcessCompleted e s i 0) = projectPersistent s"
proof -
  let ?s1 = "s\<lparr>procs := (procs s)[i := (procs s ! i)\<lparr>running := False\<rparr>]\<rparr>"
  have stopped: "\<not> isRunning (?s1\<lparr>pendingSnapshots := 0\<rparr>) i"
    using assms(2) by (simp add: isRunning_def)
  have "onProcessCompleted e s i 0 = pendingSnapshot e ?s1 COMPLETE_SNAPSHOT"
    using assms(2) by (simp add: onProcessCompleted_def onCompleted_def)
  also have "\<dots> = performAutoSnapshot e (?s1\<lparr>pendingSnapshots := 0\<rparr>) (computeLibraryHash e)"
    using assms(3) by (subst pendingSnapshot.simps) simp
  also have "\<dots> = s\<lparr>pendingSnapshots := 0,
             procs := (procs s)[i := (procs s ! i)\<lparr>running := False\<rparr>] @
                        [\<lparr> targetHash = computeLibraryHash e,
                           command = (case getAutoSnapshotCmd e (projectDirectory e) of
                                        Some c \<Rightarrow> c | None \<Rightarrow> []),
                           running = True \<rparr>],
             pAutoSnapshot := Some (length (procs s))\<rparr>"
    using assms(1) stopped by (simp add: performAutoSnapshot_unfold)
  finally show ?thesis by simp
qed

theorem exit_with_pending_restarts_witness:
  "pAutoSnapshot stateRunningWithPending = Some 0 \<and>
   isRunning stateRunningWithPending 0 \<and>
   0 <s pendingSnapshots stateRunningWithPending \<and>
   onProcessCompleted envX stateRunningWithPending 0 0 =
     \<lparr> s_runningPackratAction = PACKRAT_ACTION_NONE,
       pendingSnapshots = 0,
       pAutoSnapshot = Some 1,
       procs = [\<lparr> targetHash = ''11111111'', command = ''packrat::snapshot()'',
                  running = False \<rparr>,
                \<lparr> targetHash = ''72F618E8'', command = ''packrat::snapshot()'',
                  running = True \<rparr>],
       recursionCount = 0,
       projectPersistent = Map.empty,
       effects = [] \<rparr>"
proof -
  have p: "pAutoSnapshot stateRunningWithPending = Some 0"
    by (simp add: stateRunningWithPending_eq)
  have r: "isRunning stateRunningWithPending 0"
    by (simp add: stateRunningWithPending_eq isRunning_def)
  have c: "0 <s pendingSnapshots stateRunningWithPending"
    by (simp add: stateRunningWithPending_eq word_sless_alt)
  have x: "onProcessCompleted envX stateRunningWithPending 0 0 =
     \<lparr> s_runningPackratAction = PACKRAT_ACTION_NONE,
       pendingSnapshots = 0,
       pAutoSnapshot = Some 1,
       procs = [\<lparr> targetHash = ''11111111'', command = ''packrat::snapshot()'',
                  running = False \<rparr>,
                \<lparr> targetHash = ''72F618E8'', command = ''packrat::snapshot()'',
                  running = True \<rparr>],
       recursionCount = 0,
       projectPersistent = Map.empty,
       effects = [] \<rparr>"
    using exit_with_pending_restarts [OF p r c, of envX, THEN conjunct1]
    by (simp add: stateRunningWithPending_eq computeLibraryHash_envX envX_fields)
  show ?thesis
    by (rule conjI [OF p conjI [OF r conjI [OF c x]]])
qed

subsection \<open>One snapshot subprocess at a time\<close>

lemma filter_at_most_one:
  assumes "\<And>i j. i < length xs \<Longrightarrow> j < length xs \<Longrightarrow> P (xs ! i) \<Longrightarrow> P (xs ! j) \<Longrightarrow> i = j"
  shows "length (filter P xs) \<le> 1"
  using assms
proof (induction xs)
  case Nil
  then show ?case by simp
next
  case (Cons x xs)
  have tail: "length (filter P xs) \<le> 1"
  proof (rule Cons.IH)
    fix i j
    assume "i < length xs" "j < length xs" "P (xs ! i)" "P (xs ! j)"
    then have "Suc i = Suc j"
      by (intro Cons.prems) simp_all
    then show "i = j" by simp
  qed
  show ?case
  proof (cases "P x")
    case False
    with tail show ?thesis by simp
  next
    case True
    have "\<not> P y" if "y \<in> set xs" for y
    proof
      assume "P y"
      from that obtain j where j: "j < length xs" "xs ! j = y"
        by (auto simp: in_set_conv_nth)
      have "0 = Suc j"
        by (rule Cons.prems) (use True j \<open>P y\<close> in simp_all)
      then show False by simp
    qed
    then have "filter P xs = []"
      by (simp add: filter_empty_conv)
    with True show ?thesis by simp
  qed
qed

lemma pointsToRunningD:
  "pointsToRunning s \<Longrightarrow> i < length (procs s) \<Longrightarrow> running (procs s ! i) \<Longrightarrow>
   pAutoSnapshot s = Some i"
  by (simp add: pointsToRunning_def)

lemma pointsToRunningI:
  "(\<And>i. i < length (procs s) \<Longrightarrow> running (procs s ! i) \<Longrightarrow> pAutoSnapshot s = Some i) \<Longrightarrow>
   pointsToRunning s"
  by (simp add: pointsToRunning_def)

lemma pointsToRunning_active:
  assumes "pointsToRunning s"
  shows "activeSnapshots s \<le> 1"
  unfolding activeSnapshots_def
proof (rule filter_at_most_one)
  fix i j
  assume i: "i < length (procs s)" "running (procs s ! i)"
    and j: "j < length (procs s)" "running (procs s ! j)"
  have "pAutoSnapshot s = Some i"
    using assms i by (rule pointsToRunningD)
  moreover have "pAutoSnapshot s = Some j"
    using assms j by (rule pointsToRunningD)
  ultimately show "i = j" by simp
qed

lemma pointsToRunning_frame:
  "pointsToRunning s \<Longrightarrow> procs s' = procs s \<Longrightarrow> pAutoSnapshot s' = pAutoSnapshot s \<Longrightarrow>
   pointsToRunning s'"
  by (simp add: pointsToRunning_def)

lemma pointsToRunning_initialState: "pointsToRunning initialState"
  by (simp add: pointsToRunning_def initialState_def)

lemma performAutoSnapshot_pointsToRunning:
  assumes "pointsToRunning s"
  shows "pointsToRunning (performAutoSnapshot e s h)"
proof (cases "case pAutoSnapshot s of None \<Rightarrow> False | Some i \<Rightarrow> isRunning s i")
  case True
  then have "procs (performAutoSnapshot e s h) = procs s"
      "pAutoSnapshot (performAutoSnapshot e s h) = pAutoSnapshot s"
    by (simp_all add: performAutoSnapshot_unfold)
  with assms show ?thesis
    by (rule pointsToRunning_frame)
next
  case False
  define new where "new = \<lparr> targetHash = h,
      command = (case getAutoSnapshotCmd e (projectDirectory e) of Some c \<Rightarrow> c | None \<Rightarrow> []),
      running = True \<rparr>"
  have eq: "performAutoSnapshot e s h =
      s\<lparr>procs := procs s @ [new], pAutoSnapshot := Some (length (procs s))\<rparr>"
    using False by (simp add: performAutoSnapshot_unfold new_def)
  have idle: "\<not> running (procs s ! i)" if "i < length (procs s)" for i
  proof
    assume r: "running (procs s ! i)"
    have "pAutoSnapshot s = Some i"
      using assms that r by (rule pointsToRunningD)
    with False that r show False
      by (simp add: isRunning_def)
  qed
  show ?thesis
    unfolding eq
  proof (rule pointsToRunningI)
    fix i
    assume len: "i < length (procs (s\<lparr>procs := procs s @ [new],
          pAutoSnapshot := Some (length (procs s))\<rparr>))"
      and run: "running (procs (s\<lparr>procs := procs s @ [new],
          pAutoSnapshot := Some (length (procs s))\<rparr>) ! i)"
    have "i = length (procs s)"
    proof (rule ccontr)
      assume "i \<noteq> length (procs s)"
      with len have old: "i < length (procs s)" by simp
      with run have "running (procs s ! i)" by (simp add: nth_append)
      with idle [OF old] show False by simp
    qed
    then show "pAutoSnapshot (s\<lparr>procs := procs s @ [new],
          pAutoSnapshot := Some (length (procs s))\<rparr>) = Some i"
      by simp
  qed
qed

lemma stopped_pointsToRunning:
  assumes "pointsToRunning s"
  shows "pointsToRunning (s\<lparr>procs := (procs s)[i := (procs s ! i)\<lparr>running := False\<rparr>]\<rparr>)"
proof (rule pointsToRunningI)
  fix j
  assume len: "j < length (procs (s\<lparr>procs := (procs s)[i := (procs s ! i)\<lparr>running := False\<rparr>]\<rparr>))"
    and run: "running (procs (s\<lparr>procs := (procs s)[i := (procs s ! i)\<lparr>running := False\<rparr>]\<rparr>) ! j)"
  from len have old: "j < length (procs s)" by simp
  from run old have "j \<noteq> i" by (auto simp: nth_list_update)
  with run old have "running (procs s ! j)" by (simp add: nth_list_update)
  with assms old have "pAutoSnapshot s = Some j" by (rule pointsToRunningD)
  then show "pAutoSnapshot (s\<lparr>procs := (procs s)[i := (procs s ! i)\<lparr>running := False\<rparr>]\<rparr>) = Some j"
    by simp
qed

lemma pendingSnapshot_pointsToRunning:
  assumes "pointsToRunning s"
  shows "pointsToRunning (pendingSnapshot e s action)"
proof -
  have zero: "pointsToRunning (s\<lparr>pendingSnapshots := k\<rparr>)" for k
    using assms by (simp add: pointsToRunning_def)
  have res: "pointsToRunning (resolveStateAfterAction e s a t)" for a t
    using assms by (rule pointsToRunning_frame) (simp_all add: resolveStateAfterAction_frame)
  show ?thesis
    by (subst pendingSnapshot.simps)
       (simp add: zero res performAutoSnapshot_pointsToRunning assms)
qed

lemma onProcessCompleted_pointsToRunning:
  assumes "pointsToRunning s"
  shows "pointsToRunning (onProcessCompleted e s i exitStatus)"
  using assms
  by (simp add: onProcessCompleted_def onCompleted_def stopped_pointsToRunning
        pendingSnapshot_pointsToRunning)

lemma emitPackagesChanged_pointsToRunning:
  "pointsToRunning (emitPackagesChanged s) = pointsToRunning s"
  by (simp add: pointsToRunning_def emitPackagesChanged_def)

lemma onFileChanged_pointsToRunning:
  assumes "pointsToRunning s"
  shows "pointsToRunning (onFileChanged e s p)"
proof -
  have lock: "pointsToRunning
      (checkHashes e s HASH_TYPE_LOCKFILE HASH_STATE_OBSERVED onLockfileUpdate)"
    using assms
    by (cases "0 < recursionCount s")
       (simp_all add: checkHashes_dropped checkHashes_lockfile
          emitPackagesChanged_pointsToRunning)
  have lib: "pointsToRunning
      (checkHashes e s HASH_TYPE_LIBRARY HASH_STATE_OBSERVED onLibraryUpdate)"
    using assms
    by (cases "0 < recursionCount s")
       (simp_all add: checkHashes_dropped checkHashes_library
          emitPackagesChanged_pointsToRunning performAutoSnapshot_pointsToRunning)
  show ?thesis
    using assms lock lib by (simp add: onFileChanged_def Let_def)
qed

lemma onFilesChanged_pointsToRunning:
  "pointsToRunning s \<Longrightarrow> pointsToRunning (onFilesChanged e s changes)"
  unfolding onFilesChanged_def
  by (induction changes arbitrary: s) (simp_all add: onFileChanged_pointsToRunning)

lemma onPackratAction_pointsToRunning:
  assumes "pointsToRunning s"
  shows "pointsToRunning (onPackratAction e s project action r)"
proof -
  have "procs (onPackratAction e s project action r) = procs s"
      "pAutoSnapshot (onPackratAction e s project action r) = pAutoSnapshot s"
    by (simp_all add: onPackratAction_def Let_def resolveStateAfterAction_frame
          split: PackratActionType.splits)
  with assms show ?thesis
    by (rule pointsToRunning_frame)
qed

lemma annotatePendingActions_pointsToRunning:
  "pointsToRunning s \<Longrightarrow> pointsToRunning (snd (annotatePendingActions e s))"
  by (rule pointsToRunning_frame) (simp_all add: annotatePendingActions_frame)

lemma step_pointsToRunning:
  "pointsToRunning s \<Longrightarrow> pointsToRunning (step e s ev)"
  by (cases ev)
     (simp_all add: performAutoSnapshot_pointsToRunning onProcessCompleted_pointsToRunning
        onFileChanged_pointsToRunning onFilesChanged_pointsToRunning
        onPackratAction_pointsToRunning annotatePendingActions_pointsToRunning)

lemma run_pointsToRunning:
  "pointsToRunning s \<Longrightarrow> pointsToRunning (run s evs)"
  by (induction s evs rule: run.induct) (simp_all add: step_pointsToRunning)

text \<open>
  C1. In every state that a run of callbacks reaches from the initial state (snapshot
  requests among them, in any order with subprocess exits, file changes, action
  notifications and status requests), at most one snapshot subprocess is running. A
  request made while the process that \<open>pAutoSnapshot\<close> points to is running does not
  start another one: when the requested hash is the target of that process the state is
  returned as it is, and when it differs the only change is the pending counter, which
  goes up by one.
\<close>

theorem at_most_one_snapshot_active:
  "activeSnapshots (run initialState evs) \<le> 1 \<and>
   (pAutoSnapshot s = Some i \<and> isRunning s i \<and> targetHash (procs s ! i) = h \<longrightarrow>
      performAutoSnapshot e s h = s) \<and>
   (pAutoSnapshot s = Some i \<and> isRunning s i \<and> targetHash (procs s ! i) \<noteq> h \<longrightarrow>
      performAutoSnapshot e s h = s\<lparr>pendingSnapshots := pendingSnapshots s + 1\<rparr>)"
proof (intro conjI impI)
  show "activeSnapshots (run initialState evs) \<le> 1"
    by (intro pointsToRunning_active run_pointsToRunning pointsToRunning_initialState)
next
  assume "pAutoSnapshot s = Some i \<and> isRunning s i \<and> targetHash (procs s ! i) = h"
  then show "performAutoSnapshot e s h = s"
    by (simp add: performAutoSnapshot_unfold)
next
  assume "pAutoSnapshot s = Some i \<and> isRunning s i \<and> targetHash (procs s ! i) \<noteq> h"
  then show "performAutoSnapshot e s h = s\<lparr>pendingSnapshots := pendingSnapshots s + 1\<rparr>"
    by (simp add: performAutoSnapshot_unfold)
qed

theorem at_most_one_snapshot_active_witness:
  "pAutoSnapshot (performAutoSnapshot envX initialState ''11111111'') = Some 0 \<and>
   isRunning (performAutoSnapshot envX initialState ''11111111'') 0 \<and>
   targetHash (procs (performAutoSnapshot envX initialState ''11111111'') ! 0) = ''11111111'' \<and>
   performAutoSnapshot envX (performAutoSnapshot envX initialState ''11111111'') ''11111111''
     = performAutoSnapshot envX initialState ''11111111'' \<and>
   performAutoSnapshot envX (performAutoSnapshot envX initialState ''11111111'') ''22222222''
     = (performAutoSnapshot envX initialState ''11111111'')\<lparr>pendingSnapshots := 1\<rparr> \<and>
   activeSnapshots
     (run initialState
        [(envX, Request ''11111111''), (envX, Request ''22222222''),
         (envX, ProcessExit 0 0), (envX, Request ''33333333'')]) \<le> 1"
proof -
  let ?s1 = "performAutoSnapshot envX initialState ''11111111''"
  note one = at_most_one_snapshot_active
  have p: "pAutoSnapshot ?s1 = Some 0"
    by (simp add: envX_snapshot_from_idle)
  have r: "isRunning ?s1 0"
    by (simp add: envX_snapshot_from_idle isRunning_def)
  have h: "targetHash (procs ?s1 ! 0) = ''11111111''"
    by (simp add: envX_snapshot_from_idle)
  have diff: "targetHash (procs ?s1 ! 0) \<noteq> ''22222222''"
    by (simp add: envX_snapshot_from_idle)
  have zero: "pendingSnapshots ?s1 = 0"
    by (simp add: envX_snapshot_from_idle) (simp add: initialState_def)
  have same: "performAutoSnapshot envX ?s1 ''11111111'' = ?s1"
    using one [of _ ?s1 0 "''11111111''" envX, THEN conjunct2, THEN conjunct1] p r h
    by blast
  have "performAutoSnapshot envX ?s1 ''22222222''
      = ?s1\<lparr>pendingSnapshots := pendingSnapshots ?s1 + 1\<rparr>"
    using one [of _ ?s1 0 "''22222222''" envX, THEN conjunct2, THEN conjunct2] p r diff
    by blast
  then have other: "performAutoSnapshot envX ?s1 ''22222222'' = ?s1\<lparr>pendingSnapshots := 1\<rparr>"
    by (simp add: zero)
  have active: "activeSnapshots
     (run initialState
        [(envX, Request ''11111111''), (envX, Request ''22222222''),
         (envX, ProcessExit 0 0), (envX, Request ''33333333'')]) \<le> 1"
    by (rule one [THEN conjunct1])
  show ?thesis
    by (rule conjI [OF p conjI [OF r conjI [OF h conjI [OF same conjI [OF other active]]]]])
qed

end
